theory Spec2Isabelle
  imports Main
begin

section \<open>The ledger store\<close>

text \<open>
  The two tables of the example project, as the migrations create them. Money is
  \<^verbatim>\<open>numeric(_,2)\<close>: it is carried as a whole number of hundredths. Datetimes are a
  whole number of clock ticks. A table is the list of its rows.
\<close>

type_synonym money = int
type_synonym datetime = int

datatype account_status = Active | Suspended | Deleted

datatype transaction_status =
  Initialized | Pending | Processing | Success | Failure | Cancelled

record account_row =
  a_id :: nat
  a_requisite :: string
  a_full_name :: string
  a_status :: account_status
  a_balance :: money

record transaction_row =
  t_id :: nat
  t_external_id :: string
  t_account_id :: nat
  t_requisite :: string
  t_amount :: money
  t_status :: transaction_status
  t_message :: "string option"
  t_initialized :: datetime
  t_completed :: "datetime option"
  t_cancelled :: "datetime option"

record database =
  accounts :: "account_row list"
  transactions :: "transaction_row list"

text \<open>
  An error object as the driver hands it to a callback. \<open>err_code\<close> is the value of
  \<^verbatim>\<open>parseInt(err.code)\<close> (\<open>None\<close> when that is \<^verbatim>\<open>NaN\<close>).
\<close>

record error =
  err_name :: string
  err_message :: string
  err_code :: "int option"
  err_constraint :: "string option"

definition toString :: "error \<Rightarrow> string" where
  "toString err =
     (if err_name err = [] then err_message err
      else if err_message err = [] then err_name err
      else err_name err @ '': '' @ err_message err)"

definition pg_error :: "int \<Rightarrow> string option \<Rightarrow> string \<Rightarrow> error" where
  "pg_error sqlstate cname msg =
     \<lparr>err_name = ''error'', err_message = msg, err_code = Some sqlstate, err_constraint = cname\<rparr>"

definition unique_violation :: "string \<Rightarrow> error" where
  "unique_violation cname =
     pg_error 23505 (Some cname) ''duplicate key value violates unique constraint''"

definition check_violation :: "string \<Rightarrow> error" where
  "check_violation cname =
     pg_error 23514 (Some cname) ''new row violates check constraint''"

definition not_null_violation :: "string \<Rightarrow> error" where
  "not_null_violation col = pg_error 23502 None (''null value in column '' @ col)"

definition foreign_key_violation :: "string \<Rightarrow> error" where
  "foreign_key_violation cname =
     pg_error 23503 (Some cname) ''insert violates foreign key constraint''"

definition numeric_overflow :: error where
  "numeric_overflow = pg_error 22003 None ''numeric field overflow''"

definition value_too_long :: "string \<Rightarrow> error" where
  "value_too_long ty = pg_error 22001 None (''value too long for type '' @ ty)"

subsection \<open>The environment of one call\<close>

text \<open>
  What a call takes from outside: the clock (\<^verbatim>\<open>NOW()\<close>), the value the
  \<^verbatim>\<open>bigserial\<close> sequence hands out, and the storage failures that strike. A failure
  is addressed by the operation and by the step of that operation it strikes:
  connecting, \<^verbatim>\<open>BEGIN\<close>, the \<open>k\<close>-th statement (counted from 0 in source order) or
  \<^verbatim>\<open>COMMIT\<close>. A step that is struck has no effect on the tables.
\<close>

datatype operation = OpValidate | OpProcess | OpGet | OpCancel | OpList

datatype step = Connect | Begin | Query nat | Commit

record env =
  now :: datetime
  serial :: nat
  faults :: "operation \<Rightarrow> step \<Rightarrow> error option"

definition strike :: "env \<Rightarrow> operation \<Rightarrow> step \<Rightarrow> error + unit" where
  "strike env opr st = (case faults env opr st of Some err \<Rightarrow> Inl err | None \<Rightarrow> Inr ())"

definition query :: "env \<Rightarrow> operation \<Rightarrow> nat \<Rightarrow> (error + 'a) \<Rightarrow> error + 'a" where
  "query env opr k run =
     (case strike env opr (Query k) of Inl err \<Rightarrow> Inl err | Inr _ \<Rightarrow> run)"

text \<open>\<^verbatim>\<open>db.connect\<close> and \<^verbatim>\<open>db.transaction\<close> of \<^verbatim>\<open>example/db/index.js\<close>.\<close>

definition db_connect :: "env \<Rightarrow> operation \<Rightarrow> error + unit" where
  "db_connect env opr = strike env opr Connect"

definition db_transaction :: "env \<Rightarrow> operation \<Rightarrow> error + unit" where
  "db_transaction env opr =
     (case db_connect env opr of
        Inl err \<Rightarrow> Inl err
      | Inr _ \<Rightarrow> strike env opr Begin)"

subsection \<open>The statements\<close>

text \<open>
  \<^verbatim>\<open>numeric(p,2)\<close> holds the values below \<open>10^(p-2)\<close> in magnitude, that is
  fewer than \<open>10^p\<close> hundredths; a cast or an assignment beyond that fails.
\<close>

definition fits_numeric :: "nat \<Rightarrow> money \<Rightarrow> bool" where
  "fits_numeric p v = (\<bar>v\<bar> < 10 ^ p)"

text \<open>\<^verbatim>\<open>SELECT ... FROM "accounts" WHERE "requisite" = $1\<close>; a null parameter equals nothing.\<close>

definition select_accounts :: "string option \<Rightarrow> database \<Rightarrow> account_row list" where
  "select_accounts req db = filter (\<lambda>a. req = Some (a_requisite a)) (accounts db)"

text \<open>\<^verbatim>\<open>SELECT ... FROM "transactions" WHERE "external_id" = $1\<close>.\<close>

definition select_transactions :: "string option \<Rightarrow> database \<Rightarrow> transaction_row list" where
  "select_transactions eid db = filter (\<lambda>t. eid = Some (t_external_id t)) (transactions db)"

text \<open>
  The \<^verbatim>\<open>INSERT INTO "transactions"\<close> of \<^verbatim>\<open>process\<close>: status \<^verbatim>\<open>'success'\<close>, completed
  \<^verbatim>\<open>NOW()\<close>, the other columns at their defaults. The store evaluates the row first
  (the cast to \<^verbatim>\<open>numeric(8,2)\<close>, the \<^verbatim>\<open>varchar\<close> lengths), then the \<^verbatim>\<open>NOT NULL\<close> and
  \<^verbatim>\<open>CHECK\<close> constraints, then the unique index, then the foreign key. A string longer
  than its column is refused; that the store cuts an excess made of spaces alone instead
  is left out.
\<close>

definition new_row :: "env \<Rightarrow> string \<Rightarrow> nat \<Rightarrow> string \<Rightarrow> money \<Rightarrow> transaction_row" where
  "new_row env i aid r v =
     \<lparr>t_id = serial env, t_external_id = i, t_account_id = aid, t_requisite = r,
      t_amount = v, t_status = Success, t_message = None,
      t_initialized = now env, t_completed = Some (now env), t_cancelled = None\<rparr>"

definition insert_transaction ::
  "env \<Rightarrow> string option \<Rightarrow> nat \<Rightarrow> string option \<Rightarrow> money option \<Rightarrow> database \<Rightarrow> error + database" where
  "insert_transaction env eid aid req amt db =
     (if (case amt of Some v \<Rightarrow> \<not> fits_numeric 8 v | None \<Rightarrow> False) then Inl numeric_overflow
      else if (case eid of Some i \<Rightarrow> 24 < length i | None \<Rightarrow> False)
        then Inl (value_too_long ''character varying(24)'')
      else if (case req of Some r \<Rightarrow> 32 < length r | None \<Rightarrow> False)
        then Inl (value_too_long ''character varying(32)'')
      else case eid of
        None \<Rightarrow> Inl (not_null_violation ''external_id'')
      | Some i \<Rightarrow>
      (case req of
        None \<Rightarrow> Inl (not_null_violation ''requisite'')
      | Some r \<Rightarrow>
      (case amt of
        None \<Rightarrow> Inl (not_null_violation ''amount'')
      | Some v \<Rightarrow>
          if \<not> 0 < v then Inl (check_violation ''transactions_amount_check'')
          else if i \<in> t_external_id ` set (transactions db)
            then Inl (unique_violation ''transactions_external_id_idx'')
          else if aid \<notin> a_id ` set (accounts db)
            then Inl (foreign_key_violation ''transactions_account_id_fkey'')
          else Inr (db\<lparr>transactions := transactions db @ [new_row env i aid r v]\<rparr>))))"

text \<open>
  \<^verbatim>\<open>UPDATE "accounts" SET "balance" = f("balance") WHERE "id" = $1\<close>: the new balance
  must fit \<^verbatim>\<open>numeric(12,2)\<close> and pass \<^verbatim>\<open>CHECK ("balance" >= 0.00)\<close> on every row
  the statement assigns, or the statement fails as a whole.
\<close>

definition adjust :: "(money \<Rightarrow> money) \<Rightarrow> nat \<Rightarrow> account_row list \<Rightarrow> account_row list" where
  "adjust f aid rows =
     map (\<lambda>a. if a_id a = aid then a\<lparr>a_balance := f (a_balance a)\<rparr> else a) rows"

definition set_balance :: "(money \<Rightarrow> money) \<Rightarrow> nat \<Rightarrow> database \<Rightarrow> error + database" where
  "set_balance f aid db =
     (let hit = filter (\<lambda>a. a_id a = aid) (accounts db) in
      if \<exists>a \<in> set hit. \<not> fits_numeric 12 (f (a_balance a)) then Inl numeric_overflow
      else if \<exists>a \<in> set hit. f (a_balance a) < 0
        then Inl (check_violation ''accounts_balance_check'')
      else Inr (db\<lparr>accounts := adjust f aid (accounts db)\<rparr>))"

text \<open>\<^verbatim>\<open>SET "balance" = ("balance" + $1::numeric(8,2))\<close>, of \<^verbatim>\<open>process\<close>.\<close>

definition increase_balance :: "money \<Rightarrow> nat \<Rightarrow> database \<Rightarrow> error + database" where
  "increase_balance v aid db =
     (if \<not> fits_numeric 8 v then Inl numeric_overflow
      else set_balance (\<lambda>b. b + v) aid db)"

text \<open>\<^verbatim>\<open>SET "balance" = ("balance" - $1::numeric(8,2))\<close>, of \<^verbatim>\<open>cancel\<close>.\<close>

definition decrease_balance :: "money \<Rightarrow> nat \<Rightarrow> database \<Rightarrow> error + database" where
  "decrease_balance v aid db =
     (if \<not> fits_numeric 8 v then Inl numeric_overflow
      else set_balance (\<lambda>b. b - v) aid db)"

text \<open>
  \<^verbatim>\<open>UPDATE "transactions" SET "status" = 'cancelled' WHERE "external_id" = $1\<close>: no other
  column is assigned.
\<close>

definition mark_cancelled :: "string option \<Rightarrow> transaction_row list \<Rightarrow> transaction_row list" where
  "mark_cancelled eid rows =
     map (\<lambda>t. if eid = Some (t_external_id t) then t\<lparr>t_status := Cancelled\<rparr> else t) rows"

definition update_status_cancelled :: "string option \<Rightarrow> database \<Rightarrow> database" where
  "update_status_cancelled eid db = db\<lparr>transactions := mark_cancelled eid (transactions db)\<rparr>"

text \<open>
  \<^verbatim>\<open>SELECT * FROM "transactions" WHERE "completed" BETWEEN $1 AND $2\<close>, or
  \<^verbatim>\<open>>= $1\<close> when there is no end. A null \<^verbatim>\<open>completed\<close> satisfies neither.
\<close>

definition select_completed :: "datetime \<Rightarrow> datetime option \<Rightarrow> database \<Rightarrow> transaction_row list" where
  "select_completed b e db =
     filter (\<lambda>t. case t_completed t of
                   None \<Rightarrow> False
                 | Some c \<Rightarrow> (case e of Some e' \<Rightarrow> b \<le> c \<and> c \<le> e' | None \<Rightarrow> b \<le> c))
       (transactions db)"

section \<open>The receiver library\<close>

text \<open>
  Modelled from the spec: the status dictionary \<^verbatim>\<open>lib/status-map.js\<close> is not among the
  sources. Its entries are the HTTP codes that the comments of the handlers and the
  tests of the library name (\<^verbatim>\<open>[200 "OK"]\<close>, \<^verbatim>\<open>[202 "Accepted"]\<close>, ...).
\<close>

definition OK :: nat where [simp]: "OK = 200"
definition ACCEPTED :: nat where [simp]: "ACCEPTED = 202"
definition BAD_REQUEST :: nat where [simp]: "BAD_REQUEST = 400"
definition FORBIDDEN :: nat where [simp]: "FORBIDDEN = 403"
definition NOT_FOUND :: nat where [simp]: "NOT_FOUND = 404"
definition UNPROCESSABLE_ENTITY :: nat where [simp]: "UNPROCESSABLE_ENTITY = 422"
definition INTERNAL_SERVER_ERROR :: nat where [simp]: "INTERNAL_SERVER_ERROR = 500"
definition NOT_IMPLEMENTED :: nat where [simp]: "NOT_IMPLEMENTED = 501"

subsection \<open>Values that cross the interface\<close>

text \<open>
  The transaction object that \<^verbatim>\<open>get\<close> and \<^verbatim>\<open>list\<close> answer with. A field that the
  constructor assigns only under a condition is optional.
\<close>

record internal =
  in_id :: nat
  in_cancelled :: "datetime option"

record transaction =
  tx_id :: string
  tx_requisite :: string
  tx_amount :: money
  tx_status :: transaction_status
  tx_message :: "string option"
  tx_timestamp :: "datetime option"
  tx_internal :: internal

text \<open>
  A datetime parameter is the string of the request until the handler replaces it by a
  \<^verbatim>\<open>Date\<close>; \<open>Date None\<close> is the invalid date, whose \<^verbatim>\<open>getTime()\<close> is \<^verbatim>\<open>NaN\<close>.
\<close>

datatype jstime = Str string | Date "datetime option"

text \<open>
  The parameter object, at the types the interface documents: \<^verbatim>\<open>id\<close> and
  \<^verbatim>\<open>requisite\<close> strings, \<^verbatim>\<open>amount\<close> a number in the format \<^verbatim>\<open>0.00\<close>, \<^verbatim>\<open>timestamp\<close> a
  datetime. A property that is not defined is \<open>None\<close>.
\<close>

record params =
  p_id :: "string option"
  p_requisite :: "string option"
  p_amount :: "money option"
  p_timestamp :: "jstime option"

record range =
  q_begin :: "jstime option"
  q_end :: "jstime option"

datatype body = Text string | Entity transaction | Entities "transaction list"

text \<open>
  What an implementation method does with its callback: \<^verbatim>\<open>callback(err)\<close>,
  \<^verbatim>\<open>callback(null, status, body)\<close>, or an exception thrown before any call of it.
\<close>

datatype callback = Err error | Reply nat "body option" | Uncaught

datatype response = SendStatus nat | Send nat "body option" | NoResponse

datatype call = Validate params | Process params | Get "string option" | Cancel "string option"
  | Listing range

record 's receiver =
  validate :: "params \<Rightarrow> 's \<Rightarrow> callback \<times> 's"
  process :: "params \<Rightarrow> 's \<Rightarrow> callback \<times> 's"
  get :: "string option \<Rightarrow> 's \<Rightarrow> callback \<times> 's"
  cancel :: "string option \<Rightarrow> 's \<Rightarrow> callback \<times> 's"
  listing :: "range \<Rightarrow> 's \<Rightarrow> callback \<times> 's"

subsection \<open>Truthiness, merging, dates\<close>

definition truthy_amount :: "money option \<Rightarrow> bool" where
  "truthy_amount a = (case a of None \<Rightarrow> False | Some v \<Rightarrow> v \<noteq> 0)"

definition truthy_string :: "string option \<Rightarrow> bool" where
  "truthy_string a = (case a of None \<Rightarrow> False | Some v \<Rightarrow> v \<noteq> [])"

definition truthy_time :: "jstime option \<Rightarrow> bool" where
  "truthy_time a = (case a of None \<Rightarrow> False | Some (Str v) \<Rightarrow> v \<noteq> [] | Some (Date _) \<Rightarrow> True)"

text \<open>
  \<^verbatim>\<open>new Date(v)\<close>. The parser of datetime strings belongs to the runtime and is a
  parameter, \<open>parse\<close>. An undefined argument gives the invalid date.
\<close>

definition new_Date :: "(string \<Rightarrow> datetime option) \<Rightarrow> jstime option \<Rightarrow> datetime option" where
  "new_Date parse a = (case a of None \<Rightarrow> None | Some (Str s) \<Rightarrow> parse s | Some (Date d) \<Rightarrow> d)"

definition truthy_body :: "body option \<Rightarrow> bool" where
  "truthy_body a = (case a of None \<Rightarrow> False | Some (Text v) \<Rightarrow> v \<noteq> [] | Some _ \<Rightarrow> True)"

text \<open>
  \<^verbatim>\<open>_.merge(object, source)\<close> on flat objects: every defined property of the source is
  assigned, an undefined one is skipped. \<open>merge3\<close> is the call with two sources, applied
  from left to right.
\<close>

definition empty_params :: params where
  "empty_params = \<lparr>p_id = None, p_requisite = None, p_amount = None, p_timestamp = None\<rparr>"

definition assign :: "'a option \<Rightarrow> 'a option \<Rightarrow> 'a option" where
  "assign old new = (case new of None \<Rightarrow> old | Some v \<Rightarrow> Some v)"

definition merge :: "params \<Rightarrow> params \<Rightarrow> params" where
  "merge object source =
     \<lparr>p_id = assign (p_id object) (p_id source),
      p_requisite = assign (p_requisite object) (p_requisite source),
      p_amount = assign (p_amount object) (p_amount source),
      p_timestamp = assign (p_timestamp object) (p_timestamp source)\<rparr>"

definition merge3 :: "params \<Rightarrow> params \<Rightarrow> params \<Rightarrow> params" where
  "merge3 object source1 source2 = merge (merge object source1) source2"

text \<open>\<^verbatim>\<open>req.params\<close> of the routes \<^verbatim>\<open>/api/transactions/:id\<close>.\<close>

definition route_params :: "string \<Rightarrow> params" where
  "route_params rid = empty_params\<lparr>p_id := Some rid\<rparr>"

subsection \<open>The handlers\<close>

definition respond :: "nat \<Rightarrow> body option \<Rightarrow> response" where
  "respond status body = (if \<not> truthy_body body then SendStatus status else Send status body)"

definition internal_error :: "error \<Rightarrow> response" where
  "internal_error err = Send INTERNAL_SERVER_ERROR (Some (Text (toString err)))"

text \<open>
  Each handler answers with the response, the calls it made of the implementation in
  order, and the state the implementation left. The middleware that filters requests by
  their remote address runs before the handlers and is left out: with the default
  \<^verbatim>\<open>checkIp\<close>, which the example keeps, it passes every request on.
\<close>

definition post_validate :: "'s receiver \<Rightarrow> params \<Rightarrow> 's \<Rightarrow> response \<times> call list \<times> 's" where
  "post_validate self reqbody s =
     (let params = merge empty_params reqbody in
      if \<not> truthy_string (p_requisite params)
        then (Send BAD_REQUEST (Some (Text ''missing parameter `requisite`'')), [], s)
      else case validate self reqbody s of
        (Uncaught, s1) \<Rightarrow> (NoResponse, [Validate reqbody], s1)
      | (Err err, s1) \<Rightarrow> (internal_error err, [Validate reqbody], s1)
      | (Reply status body, s1) \<Rightarrow> (respond status body, [Validate reqbody], s1))"

definition post_transaction ::
  "(string \<Rightarrow> datetime option) \<Rightarrow> 's receiver \<Rightarrow> params \<Rightarrow> string \<Rightarrow> 's \<Rightarrow> response \<times> call list \<times> 's" where
  "post_transaction parse self reqbody rid s =
     (let params = merge3 empty_params reqbody (route_params rid) in
      if \<not> truthy_amount (p_amount params)
        then (Send BAD_REQUEST (Some (Text ''missing parameter `amount`'')), [], s)
      else if \<not> truthy_time (p_timestamp params)
        then (Send BAD_REQUEST (Some (Text ''missing parameter `timestamp`'')), [], s)
      else
      (let timestamp = new_Date parse (p_timestamp params);
           params = params\<lparr>p_timestamp := Some (Date timestamp)\<rparr> in
       if timestamp = None
         then (Send UNPROCESSABLE_ENTITY
                 (Some (Text ''parameter `timestamp` is not a valid ISO datetime'')), [], s)
       else case validate self params s of
         (Uncaught, s1) \<Rightarrow> (NoResponse, [Validate params], s1)
       | (Err err, s1) \<Rightarrow> (internal_error err, [Validate params], s1)
       | (Reply status body, s1) \<Rightarrow>
           if status \<noteq> OK then (respond status body, [Validate params], s1)
           else (case process self params s1 of
             (Uncaught, s2) \<Rightarrow> (NoResponse, [Validate params, Process params], s2)
           | (Err err, s2) \<Rightarrow> (internal_error err, [Validate params, Process params], s2)
           | (Reply status body, s2) \<Rightarrow>
               if status = OK then
                 (case get self (p_id params) s2 of
                    (Uncaught, s3) \<Rightarrow>
                      (NoResponse, [Validate params, Process params, Get (p_id params)], s3)
                  | (Err err, s3) \<Rightarrow>
                      (internal_error err, [Validate params, Process params, Get (p_id params)], s3)
                  | (Reply status body, s3) \<Rightarrow>
                      (respond status body,
                       [Validate params, Process params, Get (p_id params)], s3))
               else (respond status body, [Validate params, Process params], s2))))"

definition get_transaction :: "'s receiver \<Rightarrow> string \<Rightarrow> 's \<Rightarrow> response \<times> call list \<times> 's" where
  "get_transaction self rid s =
     (case get self (Some rid) s of
        (Uncaught, s1) \<Rightarrow> (NoResponse, [Get (Some rid)], s1)
      | (Err err, s1) \<Rightarrow> (internal_error err, [Get (Some rid)], s1)
      | (Reply status body, s1) \<Rightarrow> (Send status body, [Get (Some rid)], s1))"

definition delete_transaction :: "'s receiver \<Rightarrow> string \<Rightarrow> 's \<Rightarrow> response \<times> call list \<times> 's" where
  "delete_transaction self rid s =
     (let id' = Some rid in
      case cancel self id' s of
        (Uncaught, s1) \<Rightarrow> (NoResponse, [Cancel id'], s1)
      | (Err err, s1) \<Rightarrow> (internal_error err, [Cancel id'], s1)
      | (Reply status body, s1) \<Rightarrow>
          if status = OK then
            (case get self id' s1 of
               (Uncaught, s2) \<Rightarrow> (NoResponse, [Cancel id', Get id'], s2)
             | (Err err, s2) \<Rightarrow> (internal_error err, [Cancel id', Get id'], s2)
             | (Reply status body, s2) \<Rightarrow> (Send status body, [Cancel id', Get id'], s2))
          else (respond status body, [Cancel id'], s1))"

definition get_transactions ::
  "(string \<Rightarrow> datetime option) \<Rightarrow> 's receiver \<Rightarrow> range \<Rightarrow> 's \<Rightarrow> response \<times> call list \<times> 's" where
  "get_transactions parse self reqquery s =
     (if \<not> truthy_time (q_begin reqquery)
        then (Send BAD_REQUEST (Some (Text ''missing query parameter `begin`'')), [], s)
      else
      (let begin = new_Date parse (q_begin reqquery);
           query1 = reqquery\<lparr>q_begin := Some (Date begin)\<rparr> in
       if begin = None
         then (Send UNPROCESSABLE_ENTITY
                 (Some (Text ''query parameter `begin` is not a valid ISO datetime'')), [], s)
       else
      (let query2 = (if truthy_time (q_end query1)
                     then query1\<lparr>q_end := Some (Date (new_Date parse (q_end query1)))\<rparr>
                     else query1) in
       if truthy_time (q_end query1) \<and> new_Date parse (q_end query1) = None
         then (Send UNPROCESSABLE_ENTITY
                 (Some (Text ''query parameter `end` is not a valid ISO datetime'')), [], s)
       else case listing self query2 s of
         (Uncaught, s1) \<Rightarrow> (NoResponse, [Listing query2], s1)
       | (Err err, s1) \<Rightarrow> (internal_error err, [Listing query2], s1)
       | (Reply status body, s1) \<Rightarrow> (Send status body, [Listing query2], s1))))"

section \<open>The example implementation\<close>

definition isDuplicateIdConstraint :: "error \<Rightarrow> bool" where
  "isDuplicateIdConstraint err =
     (err_code err = Some 23505 \<and> err_constraint err = Some ''transactions_external_id_idx'')"

text \<open>
  \<^verbatim>\<open>new Transaction(row)\<close>. A \<^verbatim>\<open>Date\<close> is truthy, so \<^verbatim>\<open>timestamp\<close> is assigned exactly
  when \<^verbatim>\<open>completed\<close> is not null, and it is the value of \<^verbatim>\<open>completed\<close>; an empty message
  is falsy.
\<close>

definition Transaction :: "transaction_row \<Rightarrow> transaction" where
  "Transaction row =
     \<lparr>tx_id = t_external_id row,
      tx_requisite = t_requisite row,
      tx_amount = t_amount row,
      tx_status = t_status row,
      tx_message = (if truthy_string (t_message row) then t_message row else None),
      tx_timestamp = t_completed row,
      tx_internal = \<lparr>in_id = t_id row, in_cancelled = t_cancelled row\<rparr>\<rparr>"

definition example_validate :: "env \<Rightarrow> params \<Rightarrow> database \<Rightarrow> callback \<times> database" where
  "example_validate env params db =
     (case db_connect env OpValidate of
        Inl err \<Rightarrow> (Err err, db)
      | Inr _ \<Rightarrow>
      (case query env OpValidate 0 (Inr (select_accounts (p_requisite params) db)) of
        Inl err \<Rightarrow> (Err err, db)
      | Inr rows \<Rightarrow>
      (case rows of
        [] \<Rightarrow> (Reply NOT_FOUND (Some (Text (''account doesn'' @ [CHR 0x27] @ ''t exist''))), db)
      | account # _ \<Rightarrow>
          if a_status account \<noteq> Active
            then (Reply FORBIDDEN (Some (Text ''Please activate your account'')), db)
          else (Reply OK (Some (Text (a_full_name account))), db))))"

text \<open>
  \<^verbatim>\<open>process\<close>. When the account query answers no row, \<^verbatim>\<open>account\<close> is undefined and
  reading \<^verbatim>\<open>account.id\<close> throws: the callback is never called and nothing is committed.
  Every \<^verbatim>\<open>txn.abort\<close> gives the tables back as they were. A null amount gets no
  further than the \<^verbatim>\<open>INSERT\<close>, which refuses it. The three statements are, in source
  order, the locking \<^verbatim>\<open>SELECT\<close> of the account, the \<^verbatim>\<open>INSERT\<close> of the record and the
  \<^verbatim>\<open>UPDATE\<close> of the balance.
\<close>

definition lock_account :: "env \<Rightarrow> params \<Rightarrow> database \<Rightarrow> error + account_row list" where
  "lock_account env params db =
     query env OpProcess 0 (Inr (select_accounts (p_requisite params) db))"

definition insert_record :: "env \<Rightarrow> params \<Rightarrow> account_row \<Rightarrow> database \<Rightarrow> error + database" where
  "insert_record env params account db =
     query env OpProcess 1
       (insert_transaction env (p_id params) (a_id account) (p_requisite params)
          (p_amount params) db)"

definition update_account :: "env \<Rightarrow> params \<Rightarrow> account_row \<Rightarrow> database \<Rightarrow> error + database" where
  "update_account env params account db =
     query env OpProcess 2
       (case p_amount params of
          None \<Rightarrow> Inr db
        | Some v \<Rightarrow> increase_balance v (a_id account) db)"

definition example_process :: "env \<Rightarrow> params \<Rightarrow> database \<Rightarrow> callback \<times> database" where
  "example_process env params db =
     (case db_transaction env OpProcess of
        Inl err \<Rightarrow> (Err err, db)
      | Inr _ \<Rightarrow>
      (case lock_account env params db of
        Inl err \<Rightarrow> (Err err, db)
      | Inr rows \<Rightarrow>
      (case rows of
        [] \<Rightarrow> (Uncaught, db)
      | account # _ \<Rightarrow>
      (case insert_record env params account db of
        Inl err \<Rightarrow>
          if isDuplicateIdConstraint err then (Reply OK None, db) else (Err err, db)
      | Inr db1 \<Rightarrow>
      (case update_account env params account db1 of
        Inl err \<Rightarrow> (Err err, db)
      | Inr db2 \<Rightarrow>
      (case strike env OpProcess Commit of
        Inl err \<Rightarrow> (Err err, db)
      | Inr _ \<Rightarrow> (Reply OK None, db2)))))))"

definition example_get :: "env \<Rightarrow> string option \<Rightarrow> database \<Rightarrow> callback \<times> database" where
  "example_get env id' db =
     (case db_connect env OpGet of
        Inl err \<Rightarrow> (Err err, db)
      | Inr _ \<Rightarrow>
      (case query env OpGet 0 (Inr (select_transactions id' db)) of
        Inl err \<Rightarrow> (Err err, db)
      | Inr rows \<Rightarrow>
      (case rows of
        [] \<Rightarrow> (Reply NOT_FOUND (Some (Text (''transaction doesn'' @ [CHR 0x27] @ ''t exist''))), db)
      | row # _ \<Rightarrow> (Reply OK (Some (Entity (Transaction row))), db))))"

text \<open>
  \<^verbatim>\<open>cancel\<close>. When \<^verbatim>\<open>db.transaction\<close> fails the method calls \<^verbatim>\<open>done\<close>, which that
  failure leaves undefined, so the call throws. The status \<^verbatim>\<open>UPDATE\<close> is queued and the
  \<^verbatim>\<open>COMMIT\<close> is queued right behind it, outside its callback: when the \<^verbatim>\<open>UPDATE\<close>
  fails, the store ends the failed transaction at the \<^verbatim>\<open>COMMIT\<close> by rolling it back
  without an error, and the callback of the commit, which runs first, reports
  \<^verbatim>\<open>STATUS.OK\<close>. The result is the first call of \<^verbatim>\<open>callback\<close>.
\<close>

definition example_cancel :: "env \<Rightarrow> string option \<Rightarrow> database \<Rightarrow> callback \<times> database" where
  "example_cancel env id' db =
     (case db_transaction env OpCancel of
        Inl err \<Rightarrow> (Uncaught, db)
      | Inr _ \<Rightarrow>
      (case query env OpCancel 0 (Inr (select_transactions id' db)) of
        Inl err \<Rightarrow> (Err err, db)
      | Inr rows \<Rightarrow>
      (case rows of
        [] \<Rightarrow> (Reply NOT_FOUND None, db)
      | transaction # _ \<Rightarrow>
          if t_status transaction = Cancelled then (Reply OK None, db)
          else
      (case query env OpCancel 1
              (decrease_balance (t_amount transaction) (t_account_id transaction) db) of
        Inl err \<Rightarrow> (Err err, db)
      | Inr db1 \<Rightarrow>
      (case query env OpCancel 2 (Inr (update_status_cancelled id' db1)) of
        Inl err \<Rightarrow>
          (case strike env OpCancel Commit of
             Inl err' \<Rightarrow> (Err err', db)
           | Inr _ \<Rightarrow> (Reply OK None, db))
      | Inr db2 \<Rightarrow>
      (case strike env OpCancel Commit of
        Inl err \<Rightarrow> (Err err, db)
      | Inr _ \<Rightarrow> (Reply OK None, db2)))))))"

text \<open>
  \<^verbatim>\<open>list\<close>. The handler has made \<^verbatim>\<open>query.begin\<close> a valid \<^verbatim>\<open>Date\<close>; \<^verbatim>\<open>query.end\<close> is a
  valid \<^verbatim>\<open>Date\<close> or falsy, and a falsy end selects the statement without upper bound.
  No other value comes from the handler; on one, the model lets the statement fail in
  the store.
\<close>

definition invalid_datetime :: error where
  "invalid_datetime = pg_error 22007 None ''invalid input syntax for type timestamp''"

definition example_list :: "env \<Rightarrow> range \<Rightarrow> database \<Rightarrow> callback \<times> database" where
  "example_list env rng db =
     (case db_connect env OpList of
        Inl err \<Rightarrow> (Err err, db)
      | Inr _ \<Rightarrow>
      (case query env OpList 0
              (case (q_begin rng, if truthy_time (q_end rng) then q_end rng else None) of
                 (Some (Date (Some b)), None) \<Rightarrow> Inr (select_completed b None db)
               | (Some (Date (Some b)), Some (Date (Some e))) \<Rightarrow>
                   Inr (select_completed b (Some e) db)
               | _ \<Rightarrow> Inl invalid_datetime) of
        Inl err \<Rightarrow> (Err err, db)
      | Inr rows \<Rightarrow> (Reply OK (Some (Entities (map Transaction rows))), db)))"

text \<open>The receiver of \<^verbatim>\<open>example/server.js\<close>: the library with these five methods.\<close>

definition example_receiver :: "env \<Rightarrow> database receiver" where
  "example_receiver env =
     \<lparr>validate = example_validate env,
      process = example_process env,
      get = example_get env,
      cancel = example_cancel env,
      listing = example_list env\<rparr>"

section \<open>Runs and observations\<close>

text \<open>A call that no storage failure strikes.\<close>

definition quiet :: "env \<Rightarrow> operation \<Rightarrow> bool" where
  "quiet env opr = (\<forall>st. faults env opr st = None)"

text \<open>The same \<^verbatim>\<open>process\<close>, or the same \<^verbatim>\<open>cancel\<close>, once per environment, in sequence.\<close>

fun repeat_process :: "env list \<Rightarrow> params \<Rightarrow> database \<Rightarrow> callback list \<times> database" where
  "repeat_process [] params db = ([], db)"
| "repeat_process (env # envs) params db =
     (case example_process env params db of
        (r, db1) \<Rightarrow> (case repeat_process envs params db1 of (rs, db2) \<Rightarrow> (r # rs, db2)))"

fun repeat_cancel :: "env list \<Rightarrow> string option \<Rightarrow> database \<Rightarrow> callback list \<times> database" where
  "repeat_cancel [] id' db = ([], db)"
| "repeat_cancel (env # envs) id' db =
     (case example_cancel env id' db of
        (r, db1) \<Rightarrow> (case repeat_cancel envs id' db1 of (rs, db2) \<Rightarrow> (r # rs, db2)))"

text \<open>Any sequence of \<^verbatim>\<open>process\<close> and \<^verbatim>\<open>cancel\<close> calls, each in its own environment.\<close>

datatype engine_call = Apply env params | Reverse env "string option"

fun perform :: "engine_call \<Rightarrow> database \<Rightarrow> database" where
  "perform (Apply env params) db = snd (example_process env params db)"
| "perform (Reverse env id') db = snd (example_cancel env id' db)"

definition perform_all :: "engine_call list \<Rightarrow> database \<Rightarrow> database" where
  "perform_all cs db = fold perform cs db"

text \<open>The transaction id that a call of the implementation was handed.\<close>

definition call_id :: "call \<Rightarrow> string option" where
  "call_id c =
     (case c of Validate p \<Rightarrow> p_id p | Process p \<Rightarrow> p_id p | Get i \<Rightarrow> i | Cancel i \<Rightarrow> i
      | Listing _ \<Rightarrow> None)"

text \<open>
  What the schema keeps true of the tables (keys, unique indexes, the foreign key, the
  \<^verbatim>\<open>CHECK\<close>s and the ranges of the columns), and what \<^verbatim>\<open>process\<close> and \<^verbatim>\<open>cancel\<close> keep
  true on top of it: an account holds at least the sum of its entries that are not
  cancelled.
\<close>

definition consistent :: "database \<Rightarrow> bool" where
  "consistent db =
     (distinct (map a_id (accounts db)) \<and>
      distinct (map a_requisite (accounts db)) \<and>
      distinct (map t_external_id (transactions db)) \<and>
      (\<forall>t \<in> set (transactions db).
         t_account_id t \<in> a_id ` set (accounts db) \<and> 0 < t_amount t \<and> t_amount t < 10 ^ 8) \<and>
      (\<forall>a \<in> set (accounts db).
         length (a_requisite a) \<le> 32 \<and> 0 \<le> a_balance a \<and> a_balance a < 10 ^ 12))"

definition outstanding :: "nat \<Rightarrow> transaction_row list \<Rightarrow> money" where
  "outstanding aid rows =
     sum_list (map t_amount (filter (\<lambda>t. t_account_id t = aid \<and> t_status t \<noteq> Cancelled) rows))"

definition backed :: "database \<Rightarrow> bool" where
  "backed db =
     (\<forall>a \<in> set (accounts db). outstanding (a_id a) (transactions db) \<le> a_balance a)"



text \<open>No account is below zero.\<close>

definition solvent :: "database \<Rightarrow> bool" where
  "solvent db = (\<forall>a \<in> set (accounts db). 0 \<le> a_balance a)"

subsection \<open>A concrete store\<close>

text \<open>The two accounts of \<^verbatim>\<open>example/db/seed.js\<close>, no transaction yet.\<close>

definition seed :: database where
  "seed =
     \<lparr>accounts =
        [\<lparr>a_id = 1, a_requisite = ''996700650835'', a_full_name = ''Dan Kerimdzhanov'',
          a_status = Active, a_balance = 0\<rparr>,
         \<lparr>a_id = 2, a_requisite = ''996555362358'', a_full_name = ''Andy Romashin'',
          a_status = Suspended, a_balance = 0\<rparr>],
      transactions = []\<rparr>"

definition calm :: "datetime \<Rightarrow> nat \<Rightarrow> env" where
  "calm t n = \<lparr>now = t, serial = n, faults = (\<lambda>_ _. None)\<rparr>"

text \<open>A runtime parser that knows the one datetime string of the tests.\<close>

definition iso :: "string \<Rightarrow> datetime option" where
  "iso s = (if s = ''2015-11-24T17:41:26.691Z'' then Some 1448386886691 else None)"

definition payment :: "string \<Rightarrow> params" where
  "payment r =
     \<lparr>p_id = Some ''other'', p_requisite = Some r, p_amount = Some 4595,
      p_timestamp = Some (Str ''2015-11-24T17:41:26.691Z'')\<rparr>"

definition notified :: "string \<Rightarrow> string \<Rightarrow> params" where
  "notified i r =
     \<lparr>p_id = Some i, p_requisite = Some r, p_amount = Some 4595,
      p_timestamp = Some (Date (Some 1448386886691))\<rparr>"

text \<open>The store after that payment is processed, and after it is then cancelled.\<close>

definition demo_applied :: database where
  "demo_applied = snd (example_process (calm 100 1) (notified ''5648dc50'' ''996700650835'') seed)"

definition demo_cancelled :: database where
  "demo_cancelled = snd (example_cancel (calm 200 2) (Some ''5648dc50'') demo_applied)"

subsection \<open>Requests that pass the checks of the transport boundary\<close>

text \<open>
  \<open>well_formed\<close>: the amount and the timestamp of the request are truthy and the
  timestamp parses. \<open>accepted\<close>: the parameter object the handler then passes on.
\<close>

definition well_formed :: "(string \<Rightarrow> datetime option) \<Rightarrow> params \<Rightarrow> bool" where
  "well_formed parse reqbody =
     (truthy_amount (p_amount reqbody) \<and> truthy_time (p_timestamp reqbody) \<and>
      new_Date parse (p_timestamp reqbody) \<noteq> None)"

definition accepted :: "(string \<Rightarrow> datetime option) \<Rightarrow> params \<Rightarrow> string \<Rightarrow> params" where
  "accepted parse reqbody rid =
     (merge3 empty_params reqbody (route_params rid))
       \<lparr>p_timestamp := Some (Date (new_Date parse (p_timestamp reqbody)))\<rparr>"



text \<open>
  A store that the two operations cannot build: the entry is there, the money is not.
\<close>

definition demo_drained :: database where
  "demo_drained = demo_applied\<lparr>accounts := accounts seed\<rparr>"

section \<open>Basic facts\<close>

lemma merged_id [simp]: "p_id (merge3 empty_params reqbody (route_params rid)) = Some rid"
  by (simp add: merge3_def merge_def route_params_def assign_def empty_params_def)

lemma merged_rest [simp]:
  "p_amount (merge3 empty_params reqbody (route_params rid)) = p_amount reqbody"
  "p_timestamp (merge3 empty_params reqbody (route_params rid)) = p_timestamp reqbody"
  "p_requisite (merge3 empty_params reqbody (route_params rid)) = p_requisite reqbody"
  by (simp_all add: merge3_def merge_def route_params_def assign_def empty_params_def
        split: option.splits)

lemma quiet_strike [simp]: "quiet env opr \<Longrightarrow> strike env opr st = Inr ()"
  by (simp add: quiet_def strike_def)

lemma quiet_query [simp]: "quiet env opr \<Longrightarrow> query env opr k run = run"
  by (simp add: query_def)

lemma quiet_connect [simp]: "quiet env opr \<Longrightarrow> db_connect env opr = Inr ()"
  by (simp add: db_connect_def)

lemma quiet_transaction [simp]: "quiet env opr \<Longrightarrow> db_transaction env opr = Inr ()"
  by (simp add: db_transaction_def)

lemma quiet_calm [simp]: "quiet (calm t n) opr"
  by (simp add: quiet_def calm_def)

lemma calm_sel [simp]: "now (calm t n) = t" "serial (calm t n) = n"
  by (simp_all add: calm_def)

lemmas request_defs = post_transaction_def delete_transaction_def Let_def
  truthy_amount_def truthy_time_def truthy_body_def new_Date_def respond_def internal_error_def

lemmas example_defs = example_receiver_def example_validate_def example_process_def
  lock_account_def insert_record_def update_account_def example_get_def example_cancel_def select_accounts_def select_transactions_def
  insert_transaction_def new_row_def fits_numeric_def increase_balance_def decrease_balance_def
  set_balance_def adjust_def update_status_cancelled_def mark_cancelled_def
  isDuplicateIdConstraint_def unique_violation_def pg_error_def Transaction_def truthy_string_def

lemmas demo_defs = seed_def iso_def payment_def notified_def

lemma demo_applied_eq:
  "demo_applied =
     \<lparr>accounts =
        [\<lparr>a_id = 1, a_requisite = ''996700650835'', a_full_name = ''Dan Kerimdzhanov'',
          a_status = Active, a_balance = 4595\<rparr>,
         \<lparr>a_id = 2, a_requisite = ''996555362358'', a_full_name = ''Andy Romashin'',
          a_status = Suspended, a_balance = 0\<rparr>],
      transactions =
        [\<lparr>t_id = 1, t_external_id = ''5648dc50'', t_account_id = 1,
          t_requisite = ''996700650835'', t_amount = 4595, t_status = Success,
          t_message = None, t_initialized = 100, t_completed = Some 100,
          t_cancelled = None\<rparr>]\<rparr>"
  by (simp add: demo_applied_def example_defs demo_defs)

lemma demo_cancelled_eq:
  "demo_cancelled =
     \<lparr>accounts =
        [\<lparr>a_id = 1, a_requisite = ''996700650835'', a_full_name = ''Dan Kerimdzhanov'',
          a_status = Active, a_balance = 0\<rparr>,
         \<lparr>a_id = 2, a_requisite = ''996555362358'', a_full_name = ''Andy Romashin'',
          a_status = Suspended, a_balance = 0\<rparr>],
      transactions =
        [\<lparr>t_id = 1, t_external_id = ''5648dc50'', t_account_id = 1,
          t_requisite = ''996700650835'', t_amount = 4595, t_status = Cancelled,
          t_message = None, t_initialized = 100, t_completed = Some 100,
          t_cancelled = None\<rparr>]\<rparr>"
  by (simp add: demo_cancelled_def demo_applied_eq example_defs)

lemma accepted_payment:
  "accepted iso (payment r) rid = notified rid r"
  by (simp add: accepted_def demo_defs new_Date_def merge3_def merge_def assign_def
        empty_params_def route_params_def)

lemma well_formed_payment: "well_formed iso (payment r)"
  by (simp add: well_formed_def demo_defs truthy_amount_def truthy_time_def new_Date_def)

lemma accepted_requisite [simp]: "p_requisite (accepted parse reqbody rid) = p_requisite reqbody"
  by (simp add: accepted_def)

lemma suspended_forbidden:
  assumes "quiet env OpValidate" "select_accounts (p_requisite params) db = acct # others"
    "a_status acct = Suspended"
  shows "example_validate env params db =
           (Reply FORBIDDEN (Some (Text ''Please activate your account'')), db)"
  using assms by (simp add: example_validate_def)

lemma select_completed_eq:
  "select_completed b e db =
     filter (\<lambda>t. \<exists>c. t_completed t = Some c \<and> b \<le> c \<and> (\<forall>e'. e = Some e' \<longrightarrow> c \<le> e'))
       (transactions db)"
  unfolding select_completed_def
  by (rule filter_cong) (auto split: option.splits)



subsection \<open>What the statements keep\<close>

lemma set_balance_transactions:
  "set_balance f aid db = Inr db' \<Longrightarrow> transactions db' = transactions db"
  by (auto simp: set_balance_def Let_def split: if_splits)

lemma set_balance_accounts:
  "set_balance f aid db = Inr db' \<Longrightarrow> accounts db' = adjust f aid (accounts db)"
  by (auto simp: set_balance_def Let_def split: if_splits)

lemma set_balance_checked:
  "set_balance f aid db = Inr db' \<Longrightarrow> a \<in> set (accounts db) \<Longrightarrow> a_id a = aid \<Longrightarrow>
     0 \<le> f (a_balance a) \<and> f (a_balance a) < 10 ^ 12"
  by (auto simp: set_balance_def Let_def fits_numeric_def split: if_splits)

lemma set_balance_solvent:
  assumes "set_balance f aid db = Inr db'" "solvent db"
  shows "solvent db'"
  unfolding solvent_def
proof
  fix a' assume "a' \<in> set (accounts db')"
  then obtain a where a: "a \<in> set (accounts db)"
      and a': "a' = (if a_id a = aid then a\<lparr>a_balance := f (a_balance a)\<rparr> else a)"
    using set_balance_accounts [OF assms(1)] by (auto simp: adjust_def)
  show "0 \<le> a_balance a'"
  proof (cases "a_id a = aid")
    case True
    then show ?thesis using set_balance_checked [OF assms(1) a] a' by simp
  next
    case False
    then show ?thesis using a a' assms(2) by (simp add: solvent_def)
  qed
qed

lemma insert_accounts:
  "insert_transaction env eid aid req amt db = Inr db' \<Longrightarrow> accounts db' = accounts db"
  by (auto simp: insert_transaction_def split: if_splits option.splits)

lemma query_Inr: "query env opr k run = Inr x \<Longrightarrow> run = Inr x"
  by (auto simp: query_def split: sum.splits)

lemma increase_solvent:
  "increase_balance v aid db = Inr db' \<Longrightarrow> solvent db \<Longrightarrow> solvent db'"
  by (auto simp: increase_balance_def split: if_splits intro: set_balance_solvent)

lemma decrease_solvent:
  "decrease_balance v aid db = Inr db' \<Longrightarrow> solvent db \<Longrightarrow> solvent db'"
  by (auto simp: decrease_balance_def split: if_splits intro: set_balance_solvent)

lemma insert_solvent:
  "insert_transaction env eid aid req amt db = Inr db' \<Longrightarrow> solvent db \<Longrightarrow> solvent db'"
  by (simp add: solvent_def insert_accounts)

lemma mark_solvent [simp]: "solvent (update_status_cancelled id' db) = solvent db"
  by (simp add: solvent_def update_status_cancelled_def)

lemma process_solvent:
  assumes "solvent db"
  shows "solvent (snd (example_process env params db))"
  using assms
  by (auto simp: example_process_def insert_record_def update_account_def
        split: sum.splits list.splits option.splits
        dest!: query_Inr dest: insert_solvent increase_solvent)

lemma cancel_solvent:
  assumes "solvent db"
  shows "solvent (snd (example_cancel env id' db))"
  using assms
  by (auto simp: example_cancel_def split: sum.splits list.splits
        dest!: query_Inr dest: decrease_solvent)

lemma perform_solvent: "solvent db \<Longrightarrow> solvent (perform c db)"
  by (cases c) (simp_all add: process_solvent cancel_solvent)

lemma perform_all_solvent: "solvent db \<Longrightarrow> solvent (perform_all cs db)"
  unfolding perform_all_def
  by (induction cs arbitrary: db) (simp_all add: perform_solvent)

lemma adjust_keys [simp]:
  "map a_id (adjust f aid rows) = map a_id rows"
  "map a_requisite (adjust f aid rows) = map a_requisite rows"
  by (simp_all add: adjust_def)

lemma mark_keys [simp]:
  "map t_external_id (mark_cancelled eid rows) = map t_external_id rows"
  "map t_account_id (mark_cancelled eid rows) = map t_account_id rows"
  "map t_amount (mark_cancelled eid rows) = map t_amount rows"
  by (simp_all add: mark_cancelled_def)

lemma image_of_map: "f ` set xs = set (map f xs)"
  by simp

lemma insert_Inr:
  assumes "insert_transaction env eid aid req amt db = Inr db'"
  obtains i r v where "eid = Some i" "req = Some r" "amt = Some v" "0 < v" "v < 10 ^ 8"
    "length i \<le> 24" "length r \<le> 32" "i \<notin> t_external_id ` set (transactions db)"
    "aid \<in> a_id ` set (accounts db)"
    "db' = db\<lparr>transactions := transactions db @ [new_row env i aid r v]\<rparr>"
  using assms
  by (auto simp: insert_transaction_def fits_numeric_def split: option.splits if_splits)

lemma increase_Inr:
  assumes "increase_balance v aid db = Inr db'"
  shows "db' = db\<lparr>accounts := adjust (\<lambda>b. b + v) aid (accounts db)\<rparr>"
    and "\<forall>a \<in> set (accounts db). a_id a = aid \<longrightarrow> 0 \<le> a_balance a + v \<and> a_balance a + v < 10 ^ 12"
  using assms
  by (auto simp: increase_balance_def set_balance_def Let_def fits_numeric_def split: if_splits)

lemma decrease_Inr:
  assumes "decrease_balance v aid db = Inr db'"
  shows "db' = db\<lparr>accounts := adjust (\<lambda>b. b - v) aid (accounts db)\<rparr>"
    and "\<forall>a \<in> set (accounts db). a_id a = aid \<longrightarrow> 0 \<le> a_balance a - v \<and> a_balance a - v < 10 ^ 12"
  using assms
  by (auto simp: decrease_balance_def set_balance_def Let_def fits_numeric_def split: if_splits)

lemma consistent_adjust:
  assumes "consistent db"
    and "\<forall>a \<in> set (accounts db). a_id a = aid \<longrightarrow> 0 \<le> f (a_balance a) \<and> f (a_balance a) < 10 ^ 12"
  shows "consistent (db\<lparr>accounts := adjust f aid (accounts db)\<rparr>)"
proof -
  have "\<forall>a' \<in> set (adjust f aid (accounts db)).
      length (a_requisite a') \<le> 32 \<and> 0 \<le> a_balance a' \<and> a_balance a' < 10 ^ 12"
    using assms by (auto simp: adjust_def consistent_def)
  moreover have "a_id ` set (adjust f aid (accounts db)) = a_id ` set (accounts db)"
    unfolding image_of_map by simp
  ultimately show ?thesis
    using assms(1) by (simp add: consistent_def)
qed

lemma consistent_append:
  assumes "consistent db" "i \<notin> t_external_id ` set (transactions db)"
    "aid \<in> a_id ` set (accounts db)" "0 < v" "v < 10 ^ 8"
  shows "consistent (db\<lparr>transactions := transactions db @ [new_row env i aid r v]\<rparr>)"
  using assms by (auto simp: consistent_def new_row_def)

lemma consistent_mark:
  assumes "consistent db"
  shows "consistent (update_status_cancelled eid db)"
proof -
  have "\<forall>t' \<in> set (mark_cancelled eid (transactions db)).
      t_account_id t' \<in> a_id ` set (accounts db) \<and> 0 < t_amount t' \<and> t_amount t' < 10 ^ 8"
    using assms by (auto simp: mark_cancelled_def consistent_def)
  then show ?thesis
    using assms by (simp add: consistent_def update_status_cancelled_def)
qed

lemma insert_consistent:
  assumes "insert_transaction env eid aid req amt db = Inr db'" "consistent db"
  shows "consistent db'"
proof -
  from assms(1) obtain i r v where "0 < v" "v < 10 ^ 8"
    "i \<notin> t_external_id ` set (transactions db)" "aid \<in> a_id ` set (accounts db)"
    "db' = db\<lparr>transactions := transactions db @ [new_row env i aid r v]\<rparr>"
    by (rule insert_Inr)
  then show ?thesis
    using consistent_append [OF assms(2), of i aid v env r] by simp
qed

lemma increase_consistent:
  assumes "increase_balance v aid db = Inr db'" "consistent db"
  shows "consistent db'"
  using increase_Inr [OF assms(1)] consistent_adjust [OF assms(2), of aid "\<lambda>b. b + v"]
  by simp

lemma decrease_consistent:
  assumes "decrease_balance v aid db = Inr db'" "consistent db"
  shows "consistent db'"
  using decrease_Inr [OF assms(1)] consistent_adjust [OF assms(2), of aid "\<lambda>b. b - v"]
  by simp

lemma process_consistent:
  assumes "consistent db"
  shows "consistent (snd (example_process env params db))"
  using assms
  by (auto simp: example_process_def insert_record_def update_account_def
        split: sum.splits list.splits option.splits
        dest!: query_Inr dest: insert_consistent increase_consistent)

lemma cancel_consistent:
  assumes "consistent db"
  shows "consistent (snd (example_cancel env id' db))"
  using assms
  by (auto simp: example_cancel_def split: sum.splits list.splits
        dest!: query_Inr dest: decrease_consistent intro: consistent_mark)

lemma outstanding_append [simp]:
  "outstanding x (rows @ [new_row env i aid r v]) = outstanding x rows + (if x = aid then v else 0)"
  by (simp add: outstanding_def new_row_def)

lemma outstanding_mark_le:
  "\<forall>t \<in> set rows. 0 \<le> t_amount t \<Longrightarrow>
     outstanding x (mark_cancelled eid rows) \<le> outstanding x rows"
  by (induction rows) (auto simp: outstanding_def mark_cancelled_def)

lemma outstanding_mark_drop:
  "\<forall>t \<in> set rows. 0 \<le> t_amount t \<Longrightarrow> t \<in> set rows \<Longrightarrow> eid = Some (t_external_id t) \<Longrightarrow>
     t_status t \<noteq> Cancelled \<Longrightarrow>
     outstanding (t_account_id t) (mark_cancelled eid rows) + t_amount t
       \<le> outstanding (t_account_id t) rows"
proof (induction rows)
  case Nil
  then show ?case by simp
next
  case (Cons x xs)
  have le: "outstanding (t_account_id t) (mark_cancelled eid xs) \<le> outstanding (t_account_id t) xs"
    using Cons.prems(1) by (intro outstanding_mark_le) simp
  show ?case
  proof (cases "x = t")
    case True
    then show ?thesis
      using le Cons.prems by (simp add: outstanding_def mark_cancelled_def)
  next
    case False
    then have "outstanding (t_account_id t) (mark_cancelled eid xs) + t_amount t
       \<le> outstanding (t_account_id t) xs"
      using Cons by simp
    moreover have "0 \<le> t_amount x" using Cons.prems(1) by simp
    ultimately show ?thesis
      by (auto simp: outstanding_def mark_cancelled_def)
  qed
qed

lemma outstanding_member:
  "\<forall>t \<in> set rows. 0 \<le> t_amount t \<Longrightarrow> t \<in> set rows \<Longrightarrow> t_status t \<noteq> Cancelled \<Longrightarrow>
     t_amount t \<le> outstanding (t_account_id t) rows"
proof (induction rows)
  case Nil
  then show ?case by simp
next
  case (Cons x xs)
  have nn: "0 \<le> outstanding (t_account_id t) xs"
    unfolding outstanding_def using Cons.prems(1) by (intro sum_list_nonneg) auto
  show ?case
  proof (cases "x = t")
    case True
    then show ?thesis using nn Cons.prems by (simp add: outstanding_def)
  next
    case False
    then have "t_amount t \<le> outstanding (t_account_id t) xs" using Cons by simp
    moreover have "0 \<le> t_amount x" using Cons.prems(1) by simp
    ultimately show ?thesis by (auto simp: outstanding_def)
  qed
qed

lemma select_transactions_mem:
  "select_transactions eid db = t # others \<Longrightarrow>
     t \<in> set (transactions db) \<and> eid = Some (t_external_id t)"
proof -
  assume "select_transactions eid db = t # others"
  then have "t \<in> set (select_transactions eid db)" by simp
  then show ?thesis by (simp add: select_transactions_def)
qed

lemma select_accounts_mem:
  "select_accounts req db = acct # others \<Longrightarrow>
     acct \<in> set (accounts db) \<and> req = Some (a_requisite acct)"
proof -
  assume "select_accounts req db = acct # others"
  then have "acct \<in> set (select_accounts req db)" by simp
  then show ?thesis by (simp add: select_accounts_def)
qed

lemma consistent_amounts: "consistent db \<Longrightarrow> \<forall>t \<in> set (transactions db). 0 \<le> t_amount t"
  by (auto simp: consistent_def intro: less_imp_le)

lemma insert_increase_backed:
  assumes i: "insert_transaction env eid aid req (Some v) db = Inr inserted"
    and u: "increase_balance v aid inserted = Inr db'"
    and b: "backed db"
  shows "backed db'"
proof -
  from i obtain i' r v' where v': "Some v = Some v'"
    and ins: "inserted = db\<lparr>transactions := transactions db @ [new_row env i' aid r v']\<rparr>"
    by (rule insert_Inr)
  have db': "db' = \<lparr>accounts = adjust (\<lambda>b. b + v) aid (accounts db),
                   transactions = transactions db @ [new_row env i' aid r v]\<rparr>"
    using increase_Inr(1) [OF u] ins v' by simp
  show ?thesis
    unfolding backed_def db' using b
    by (auto simp: adjust_def backed_def)
qed

lemma decrease_mark_backed:
  assumes sel: "select_transactions id' db = t # others"
    and st: "t_status t \<noteq> Cancelled"
    and d: "decrease_balance (t_amount t) (t_account_id t) db = Inr debited"
    and c: "consistent db" and b: "backed db"
  shows "backed (update_status_cancelled id' debited)"
proof -
  note mem = select_transactions_mem [OF sel]
  note nn = consistent_amounts [OF c]
  have eq: "update_status_cancelled id' debited =
      \<lparr>accounts = adjust (\<lambda>b. b - t_amount t) (t_account_id t) (accounts db),
       transactions = mark_cancelled id' (transactions db)\<rparr>"
    using decrease_Inr(1) [OF d] by (simp add: update_status_cancelled_def)
  have drop: "outstanding (t_account_id t) (mark_cancelled id' (transactions db)) + t_amount t
       \<le> outstanding (t_account_id t) (transactions db)"
    using mem st by (intro outstanding_mark_drop [OF nn]) simp_all
  show ?thesis
    unfolding backed_def eq
  proof
    fix a' assume "a' \<in> set (accounts \<lparr>accounts = adjust (\<lambda>b. b - t_amount t) (t_account_id t) (accounts db),
       transactions = mark_cancelled id' (transactions db)\<rparr>)"
    then obtain a where a: "a \<in> set (accounts db)"
      and a': "a' = (if a_id a = t_account_id t then a\<lparr>a_balance := a_balance a - t_amount t\<rparr> else a)"
      by (auto simp: adjust_def)
    have ba: "outstanding (a_id a) (transactions db) \<le> a_balance a"
      using b a by (simp add: backed_def)
    show "outstanding (a_id a') (transactions \<lparr>accounts = adjust (\<lambda>b. b - t_amount t) (t_account_id t) (accounts db),
       transactions = mark_cancelled id' (transactions db)\<rparr>) \<le> a_balance a'"
    proof (cases "a_id a = t_account_id t")
      case True
      then show ?thesis using a' drop ba by simp
    next
      case False
      then show ?thesis
        using a' ba outstanding_mark_le [OF nn, of "a_id a" id'] by simp
    qed
  qed
qed

lemma process_backed:
  assumes "backed db"
  shows "backed (snd (example_process env params db))"
  using assms
  by (auto simp: example_process_def insert_record_def update_account_def
        split: sum.splits list.splits option.splits
        dest!: query_Inr dest: insert_increase_backed elim: insert_Inr)

lemma cancel_backed:
  assumes "consistent db" "backed db"
  shows "backed (snd (example_cancel env id' db))"
  using assms
  by (auto simp: example_cancel_def split: sum.splits list.splits
        dest!: query_Inr intro: decrease_mark_backed)

subsection \<open>One call of the engine\<close>

lemma set_balance_ok:
  assumes "\<forall>a \<in> set (accounts db). a_id a = aid \<longrightarrow> 0 \<le> f (a_balance a) \<and> f (a_balance a) < 10 ^ 12"
  shows "set_balance f aid db = Inr (db\<lparr>accounts := adjust f aid (accounts db)\<rparr>)"
proof -
  have "\<not> (\<exists>a \<in> set (filter (\<lambda>a. a_id a = aid) (accounts db)). \<not> fits_numeric 12 (f (a_balance a)))"
    using assms by (auto simp: fits_numeric_def)
  moreover have "\<not> (\<exists>a \<in> set (filter (\<lambda>a. a_id a = aid) (accounts db)). f (a_balance a) < 0)"
    using assms by auto
  ultimately show ?thesis
    unfolding set_balance_def Let_def by (simp only: if_False)
qed

lemma isDuplicate_unique [simp]:
  "isDuplicateIdConstraint (unique_violation ''transactions_external_id_idx'')"
  by (simp add: isDuplicateIdConstraint_def unique_violation_def pg_error_def)

lemma adjust_only:
  assumes "distinct (map a_id rows)" "acct \<in> set rows"
  shows "adjust f (a_id acct) rows =
           map (\<lambda>a. if a = acct then a\<lparr>a_balance := f (a_balance a)\<rparr> else a) rows"
proof -
  have "inj_on a_id (set rows)" using assms(1) by (simp add: distinct_map)
  then have "\<forall>a \<in> set rows. (a_id a = a_id acct) = (a = acct)"
    using assms(2) by (auto dest: inj_onD)
  then show ?thesis by (auto simp: adjust_def)
qed

lemma mark_only:
  assumes "distinct (map t_external_id rows)" "t \<in> set rows"
  shows "mark_cancelled (Some (t_external_id t)) rows =
           map (\<lambda>x. if x = t then x\<lparr>t_status := Cancelled\<rparr> else x) rows"
proof -
  have "inj_on t_external_id (set rows)" using assms(1) by (simp add: distinct_map)
  then have "\<forall>x \<in> set rows. (t_external_id t = t_external_id x) = (x = t)"
    using assms(2) by (auto dest: inj_onD)
  then show ?thesis by (auto simp: mark_cancelled_def)
qed

lemma count_unique:
  assumes "distinct (map f xs)" "y \<in> f ` set xs"
  shows "length (filter (\<lambda>x. f x = y) xs) = 1"
  using assms
proof (induction xs)
  case Nil
  then show ?case by simp
next
  case (Cons x xs)
  show ?case
  proof (cases "f x = y")
    case True
    have "f x \<notin> f ` set xs" using Cons.prems(1) by simp
    then have "\<forall>z \<in> set xs. f z \<noteq> y" using True by (metis imageI)
    then have "filter (\<lambda>x. f x = y) xs = []"
      by (simp add: filter_empty_conv)
    with True show ?thesis by simp
  next
    case False
    then show ?thesis using Cons by auto
  qed
qed

lemma process_fresh:
  assumes q: "quiet env OpProcess"
    and prm: "p_id params = Some i" "p_requisite params = Some r" "p_amount params = Some v"
    and acct: "select_accounts (Some r) db = acct # others"
    and fresh: "i \<notin> t_external_id ` set (transactions db)"
    and ok: "length i \<le> 24" "length r \<le> 32" "0 < v" "v < 10 ^ 8"
    and room: "\<forall>a \<in> set (accounts db). a_id a = a_id acct \<longrightarrow>
                 0 \<le> a_balance a + v \<and> a_balance a + v < 10 ^ 12"
  shows "example_process env params db =
           (Reply OK None,
            \<lparr>accounts = adjust (\<lambda>b. b + v) (a_id acct) (accounts db),
             transactions = transactions db @ [new_row env i (a_id acct) r v]\<rparr>)"
proof -
  have mem: "a_id acct \<in> a_id ` set (accounts db)"
    using select_accounts_mem [OF acct] by auto
  have ins: "insert_transaction env (Some i) (a_id acct) (Some r) (Some v) db =
      Inr (db\<lparr>transactions := transactions db @ [new_row env i (a_id acct) r v]\<rparr>)"
    using ok fresh mem by (simp add: insert_transaction_def fits_numeric_def)
  have upd: "increase_balance v (a_id acct)
       (db\<lparr>transactions := transactions db @ [new_row env i (a_id acct) r v]\<rparr>)
     = Inr (db\<lparr>transactions := transactions db @ [new_row env i (a_id acct) r v],
               accounts := adjust (\<lambda>b. b + v) (a_id acct) (accounts db)\<rparr>)"
    using ok room by (simp add: increase_balance_def fits_numeric_def set_balance_ok)
  show ?thesis
    by (simp add: example_process_def lock_account_def insert_record_def update_account_def
          q prm acct ins upd)
qed


lemma process_replay:
  assumes q: "quiet env OpProcess"
    and prm: "p_id params = Some i" "p_requisite params = Some r" "p_amount params = Some v"
    and acct: "select_accounts (Some r) db \<noteq> []"
    and dup: "i \<in> t_external_id ` set (transactions db)"
    and ok: "length i \<le> 24" "length r \<le> 32" "0 < v" "v < 10 ^ 8"
  shows "example_process env params db = (Reply OK None, db)"
proof -
  obtain acct others where a: "select_accounts (Some r) db = acct # others"
    using acct by (cases "select_accounts (Some r) db") auto
  have "insert_transaction env (Some i) (a_id acct) (Some r) (Some v) db =
      Inl (unique_violation ''transactions_external_id_idx'')"
    using ok dup by (simp add: insert_transaction_def fits_numeric_def)
  then show ?thesis
    by (simp add: example_process_def lock_account_def insert_record_def q prm a)
qed


lemma repeat_process_replay:
  assumes q: "\<forall>e \<in> set envs. quiet e OpProcess"
    and prm: "p_id params = Some i" "p_requisite params = Some r" "p_amount params = Some v"
    and acct: "select_accounts (Some r) db \<noteq> []"
    and dup: "i \<in> t_external_id ` set (transactions db)"
    and ok: "length i \<le> 24" "length r \<le> 32" "0 < v" "v < 10 ^ 8"
  shows "repeat_process envs params db = (replicate (length envs) (Reply OK None), db)"
  using q
proof (induction envs)
  case Nil
  then show ?case by simp
next
  case (Cons e envs)
  then have "example_process e params db = (Reply OK None, db)"
    by (intro process_replay [OF _ prm acct dup ok]) simp
  with Cons show ?case by simp
qed


lemma adjust_requisite: "a_requisite (if c then a\<lparr>a_balance := x\<rparr> else a) = a_requisite a"
  by simp

lemma filter_adjust:
  "filter (\<lambda>a. req = Some (a_requisite a)) (adjust f aid rows) =
     adjust f aid (filter (\<lambda>a. req = Some (a_requisite a)) rows)"
  unfolding adjust_def filter_map comp_def adjust_requisite ..


lemma select_accounts_adjust:
  "select_accounts req \<lparr>accounts = adjust f aid (accounts db), transactions = ts\<rparr> = []
     \<longleftrightarrow> select_accounts req db = []"
proof -
  have "select_accounts req \<lparr>accounts = adjust f aid (accounts db), transactions = ts\<rparr> =
      adjust f aid (select_accounts req db)"
    unfolding select_accounts_def by (simp only: database.simps filter_adjust)
  then show ?thesis by (simp only: adjust_def map_is_Nil_conv)
qed

lemma filter_mark:
  "filter (\<lambda>t. eid = Some (t_external_id t)) (mark_cancelled eid rows) =
     map (\<lambda>t. t\<lparr>t_status := Cancelled\<rparr>) (filter (\<lambda>t. eid = Some (t_external_id t)) rows)"
  by (induction rows) (simp_all add: mark_cancelled_def)

lemma cancel_first:
  assumes q: "quiet env OpCancel"
    and sel: "select_transactions id' db = t # others"
    and st: "t_status t \<noteq> Cancelled"
    and c: "consistent db" and b: "backed db"
  shows "example_cancel env id' db =
           (Reply OK None,
            \<lparr>accounts = adjust (\<lambda>b. b - t_amount t) (t_account_id t) (accounts db),
             transactions = mark_cancelled id' (transactions db)\<rparr>)"
proof -
  note mem = select_transactions_mem [OF sel]
  have amt: "0 < t_amount t" "t_amount t < 10 ^ 8"
    using c mem by (auto simp: consistent_def)
  have due: "t_amount t \<le> outstanding (t_account_id t) (transactions db)"
    using mem st by (intro outstanding_member [OF consistent_amounts [OF c]]) simp_all
  have enough: "\<forall>a \<in> set (accounts db). a_id a = t_account_id t \<longrightarrow>
      0 \<le> a_balance a - t_amount t \<and> a_balance a - t_amount t < 10 ^ 12"
  proof (intro ballI impI)
    fix a assume a: "a \<in> set (accounts db)" "a_id a = t_account_id t"
    then have "outstanding (t_account_id t) (transactions db) \<le> a_balance a"
      using b by (auto simp: backed_def)
    moreover have "a_balance a < 10 ^ 12" using c a by (auto simp: consistent_def)
    ultimately show "0 \<le> a_balance a - t_amount t \<and> a_balance a - t_amount t < 10 ^ 12"
      using due amt by simp
  qed
  have dec: "decrease_balance (t_amount t) (t_account_id t) db =
      Inr (db\<lparr>accounts := adjust (\<lambda>b. b - t_amount t) (t_account_id t) (accounts db)\<rparr>)"
    using amt enough by (simp add: decrease_balance_def fits_numeric_def set_balance_ok)
  show ?thesis
    by (simp add: example_cancel_def q sel st dec update_status_cancelled_def)
qed

lemma cancel_again:
  assumes "quiet env OpCancel" "select_transactions id' db = t # others" "t_status t = Cancelled"
  shows "example_cancel env id' db = (Reply OK None, db)"
  using assms by (simp add: example_cancel_def)

lemma cancel_missing:
  assumes "quiet env OpCancel" "select_transactions id' db = []"
  shows "example_cancel env id' db = (Reply NOT_FOUND None, db)"
  using assms by (simp add: example_cancel_def)

lemma repeat_cancel_again:
  assumes "\<forall>e \<in> set envs. quiet e OpCancel" "select_transactions id' db = t # others"
    "t_status t = Cancelled"
  shows "repeat_cancel envs id' db = (replicate (length envs) (Reply OK None), db)"
  using assms(1)
proof (induction envs)
  case Nil
  then show ?case by simp
next
  case (Cons e envs)
  then have "example_cancel e id' db = (Reply OK None, db)"
    by (intro cancel_again [OF _ assms(2,3)]) simp
  with Cons show ?case by simp
qed

lemma repeat_cancel_missing:
  assumes "\<forall>e \<in> set envs. quiet e OpCancel" "select_transactions id' db = []"
  shows "repeat_cancel envs id' db = (replicate (length envs) (Reply NOT_FOUND None), db)"
  using assms(1)
proof (induction envs)
  case Nil
  then show ?case by simp
next
  case (Cons e envs)
  then have "example_cancel e id' db = (Reply NOT_FOUND None, db)"
    by (intro cancel_missing [OF _ assms(2)]) simp
  with Cons show ?case by simp
qed

subsection \<open>The invariants along every run\<close>

lemma perform_consistent: "consistent db \<Longrightarrow> consistent (perform c db)"
  by (cases c) (simp_all add: process_consistent cancel_consistent)

lemma perform_backed: "consistent db \<Longrightarrow> backed db \<Longrightarrow> backed (perform c db)"
  by (cases c) (simp_all add: process_backed cancel_backed)

lemma perform_all_sound:
  "consistent db \<Longrightarrow> backed db \<Longrightarrow>
     consistent (perform_all cs db) \<and> backed (perform_all cs db)"
  unfolding perform_all_def
  by (induction cs arbitrary: db) (simp_all add: perform_consistent perform_backed)

lemma seed_sound: "consistent seed \<and> backed seed"
  by (simp add: consistent_def backed_def outstanding_def seed_def)

lemma demo_applied_sound: "consistent demo_applied \<and> backed demo_applied"
  using perform_all_sound [of seed "[Apply (calm 100 1) (notified ''5648dc50'' ''996700650835'')]"]
    seed_sound
  by (simp add: perform_all_def demo_applied_def)

subsection \<open>Refused inserts and completion stamps\<close>













section \<open>The request orchestration\<close>

text \<open>
  C9. The transaction id handed to \<^verbatim>\<open>validate\<close>, to \<^verbatim>\<open>process\<close> and to \<^verbatim>\<open>get\<close> by the
  handler of \<^verbatim>\<open>POST /api/transactions/:id\<close> is always the id of the URL path: whatever
  \<^verbatim>\<open>id\<close> the request body carries, every call the handler makes of the implementation
  bears the route id.
\<close>

theorem route_id_wins:
  "\<forall>c \<in> set (fst (snd (post_transaction parse self reqbody rid s))). call_id c = Some rid"
  by (auto simp: post_transaction_def Let_def call_id_def
        split: prod.splits callback.splits if_splits)

theorem route_id_wins_witness:
  "p_id (payment ''996700650835'') = Some ''other''
   \<and> fst (snd (post_transaction iso (example_receiver (calm 100 1))
               (payment ''996700650835'') ''5648dc50'' seed))
     = [Validate (notified ''5648dc50'' ''996700650835''),
        Process (notified ''5648dc50'' ''996700650835''), Get (Some ''5648dc50'')]
   \<and> map call_id (fst (snd (post_transaction iso (example_receiver (calm 100 1))
          (payment ''996700650835'') ''5648dc50'' seed)))
     = [Some ''5648dc50'', Some ''5648dc50'', Some ''5648dc50'']"
  using route_id_wins [of iso "example_receiver (calm 100 1)" "payment ''996700650835''"
      "''5648dc50''" seed]
  by (simp add: request_defs example_defs demo_defs call_id_def)

text \<open>
  C10. The handler rejects a falsy amount and a falsy timestamp before it calls
  anything: a request whose amount is absent or 0 is answered 400 with
  \<^verbatim>\<open>missing parameter `amount`\<close>; a request whose amount is truthy and whose timestamp
  is absent or empty is answered 400 with \<^verbatim>\<open>missing parameter `timestamp`\<close>; a falsy
  timestamp is answered 400 whatever the amount. In each case no method of the
  implementation is called and its state is untouched. The store refuses an amount of 0
  as well.
\<close>

theorem falsy_amount_rejected:
  "(p_amount reqbody = None \<or> p_amount reqbody = Some 0 \<longrightarrow>
      post_transaction parse self reqbody rid s =
        (Send BAD_REQUEST (Some (Text ''missing parameter `amount`'')), [], s))
   \<and> ((\<exists>v. p_amount reqbody = Some v \<and> v \<noteq> 0) \<and>
      (p_timestamp reqbody = None \<or> p_timestamp reqbody = Some (Str [])) \<longrightarrow>
      post_transaction parse self reqbody rid s =
        (Send BAD_REQUEST (Some (Text ''missing parameter `timestamp`'')), [], s))
   \<and> (p_timestamp reqbody = None \<or> p_timestamp reqbody = Some (Str []) \<longrightarrow>
      (\<exists>msg. post_transaction parse self reqbody rid s = (Send BAD_REQUEST msg, [], s)))
   \<and> (\<exists>err. insert_transaction env eid aid req (Some 0) db = Inl err)"
  by (auto simp: post_transaction_def Let_def truthy_amount_def truthy_time_def
        insert_transaction_def fits_numeric_def split: option.splits)

theorem falsy_amount_rejected_witness:
  "post_transaction iso (example_receiver (calm 100 1))
      ((payment ''996700650835'')\<lparr>p_amount := Some 0\<rparr>) ''5648dc50'' seed =
        (Send 400 (Some (Text ''missing parameter `amount`'')), [], seed)
   \<and> post_transaction iso (example_receiver (calm 100 1))
      ((payment ''996700650835'')\<lparr>p_timestamp := None\<rparr>) ''5648dc50'' seed =
        (Send 400 (Some (Text ''missing parameter `timestamp`'')), [], seed)"
  using falsy_amount_rejected [of "(payment ''996700650835'')\<lparr>p_amount := Some 0\<rparr>" iso
      "example_receiver (calm 100 1)" "''5648dc50''" seed]
    falsy_amount_rejected [of "(payment ''996700650835'')\<lparr>p_timestamp := None\<rparr>" iso
      "example_receiver (calm 100 1)" "''5648dc50''" seed]
  by (simp add: payment_def)

text \<open>
  C5. The two tiers of completion, for \<^verbatim>\<open>process\<close> and for \<^verbatim>\<open>cancel\<close>. When the method
  answers \<^verbatim>\<open>STATUS.OK\<close> the handler calls \<^verbatim>\<open>get\<close> with the route id once, after the
  method, and answers with what \<^verbatim>\<open>get\<close> replied. When the method answers any other
  status, the handler answers with that status and the body it came with, and \<^verbatim>\<open>get\<close>
  is not called.
\<close>

theorem two_tier_completion:
  "(well_formed parse reqbody \<and>
    validate self (accepted parse reqbody rid) s = (Reply OK vbody, sv) \<and>
    process self (accepted parse reqbody rid) sv = (Reply status body, sp) \<longrightarrow>
      (status = OK \<longrightarrow>
         fst (snd (post_transaction parse self reqbody rid s)) =
           [Validate (accepted parse reqbody rid), Process (accepted parse reqbody rid),
            Get (Some rid)] \<and>
         (\<forall>gstatus gbody sg. get self (Some rid) sp = (Reply gstatus gbody, sg) \<longrightarrow>
            post_transaction parse self reqbody rid s =
              (respond gstatus gbody,
               [Validate (accepted parse reqbody rid), Process (accepted parse reqbody rid),
                Get (Some rid)], sg))) \<and>
      (status \<noteq> OK \<longrightarrow>
         post_transaction parse self reqbody rid s =
           (respond status body,
            [Validate (accepted parse reqbody rid), Process (accepted parse reqbody rid)], sp)))
   \<and> (cancel self (Some rid) t = (Reply status body, tc) \<longrightarrow>
      (status = OK \<longrightarrow>
         fst (snd (delete_transaction self rid t)) = [Cancel (Some rid), Get (Some rid)] \<and>
         (\<forall>gstatus gbody tg. get self (Some rid) tc = (Reply gstatus gbody, tg) \<longrightarrow>
            delete_transaction self rid t =
              (Send gstatus gbody, [Cancel (Some rid), Get (Some rid)], tg))) \<and>
      (status \<noteq> OK \<longrightarrow>
         delete_transaction self rid t = (respond status body, [Cancel (Some rid)], tc)))"
  by (auto simp: post_transaction_def delete_transaction_def Let_def accepted_def
        well_formed_def split: prod.splits callback.splits)

theorem two_tier_completion_witness:
  "post_transaction iso (example_receiver (calm 100 1)) (payment ''996700650835'')
       ''5648dc50'' seed =
     (Send 200 (Some (Entity
        \<lparr>tx_id = ''5648dc50'', tx_requisite = ''996700650835'', tx_amount = 4595,
         tx_status = Success, tx_message = None, tx_timestamp = Some 100,
         tx_internal = \<lparr>in_id = 1, in_cancelled = None\<rparr>\<rparr>)),
      [Validate (notified ''5648dc50'' ''996700650835''),
       Process (notified ''5648dc50'' ''996700650835''), Get (Some ''5648dc50'')],
      demo_applied)
   \<and> delete_transaction (example_receiver (calm 200 2)) ''5648dc50'' demo_applied =
     (Send 200 (Some (Entity
        \<lparr>tx_id = ''5648dc50'', tx_requisite = ''996700650835'', tx_amount = 4595,
         tx_status = Cancelled, tx_message = None, tx_timestamp = Some 100,
         tx_internal = \<lparr>in_id = 1, in_cancelled = None\<rparr>\<rparr>)),
      [Cancel (Some ''5648dc50''), Get (Some ''5648dc50'')], demo_cancelled)
   \<and> delete_transaction (example_receiver (calm 200 2)) ''unknown'' seed =
     (SendStatus 404, [Cancel (Some ''unknown'')], seed)"
proof -
  let ?self = "example_receiver (calm 100 1)"
  let ?later = "example_receiver (calm 200 2)"
  let ?p = "accepted iso (payment ''996700650835'') ''5648dc50''"
  let ?e = "\<lparr>tx_id = ''5648dc50'', tx_requisite = ''996700650835'', tx_amount = 4595,
         tx_status = Success, tx_message = None, tx_timestamp = Some 100,
         tx_internal = \<lparr>in_id = 1, in_cancelled = None\<rparr>\<rparr>"
  note p = accepted_payment [of "''996700650835''" "''5648dc50''"]
  note wf = well_formed_payment [of "''996700650835''"]
  have v: "validate ?self ?p seed = (Reply OK (Some (Text ''Dan Kerimdzhanov'')), seed)"
    unfolding p
    by (simp add: example_receiver_def example_validate_def select_accounts_def demo_defs)
  have pr: "process ?self ?p seed = (Reply OK None, demo_applied)"
    unfolding p by (simp add: demo_applied_eq) (simp add: example_defs demo_defs)
  have g: "get ?self (Some ''5648dc50'') demo_applied =
      (Reply OK (Some (Entity ?e)), demo_applied)"
    by (simp add: demo_applied_eq example_defs)
  have c: "cancel ?later (Some ''5648dc50'') demo_applied = (Reply OK None, demo_cancelled)"
    by (simp add: demo_cancelled_eq) (simp add: demo_applied_eq example_defs)
  have g2: "get ?later (Some ''5648dc50'') demo_cancelled =
      (Reply OK (Some (Entity (?e\<lparr>tx_status := Cancelled\<rparr>))), demo_cancelled)"
    by (simp add: demo_cancelled_eq example_defs)
  have c2: "cancel ?later (Some ''unknown'') seed = (Reply NOT_FOUND None, seed)"
    by (simp add: example_defs demo_defs)
  from two_tier_completion [where parse = iso and reqbody = "payment ''996700650835''"
        and self = ?self and rid = "''5648dc50''" and s = seed and sv = seed
        and vbody = "Some (Text ''Dan Kerimdzhanov'')" and status = OK and body = None
        and sp = demo_applied] wf v pr g
  have a: "post_transaction iso ?self (payment ''996700650835'') ''5648dc50'' seed =
        (respond OK (Some (Entity ?e)), [Validate ?p, Process ?p, Get (Some ''5648dc50'')],
         demo_applied)"
    by simp
  from two_tier_completion [where self = ?later and rid = "''5648dc50''" and t = demo_applied
        and status = OK and body = None and tc = demo_cancelled] c g2
  have b: "delete_transaction ?later ''5648dc50'' demo_applied =
        (Send OK (Some (Entity (?e\<lparr>tx_status := Cancelled\<rparr>))),
         [Cancel (Some ''5648dc50''), Get (Some ''5648dc50'')], demo_cancelled)"
    by simp
  from two_tier_completion [where self = ?later and rid = "''unknown''" and t = seed
        and status = NOT_FOUND and body = None and tc = seed] c2
  have d: "delete_transaction ?later ''unknown'' seed =
        (respond NOT_FOUND None, [Cancel (Some ''unknown'')], seed)"
    by simp
  show ?thesis
    using a b d by (simp add: p respond_def truthy_body_def)
qed

text \<open>
  C4. For every request that passes the checks of the transport boundary, on whatever
  state (a replay included), the handler calls \<^verbatim>\<open>validate\<close> first and exactly once. When
  \<^verbatim>\<open>validate\<close> answers a status other than \<^verbatim>\<open>STATUS.OK\<close>, the handler answers with that
  status and body, and when it fails, with the failure; in both cases \<^verbatim>\<open>validate\<close> is
  the only call made, so \<^verbatim>\<open>process\<close> is never called. In the example implementation
  a suspended account is answered 403 with the message
  \<^verbatim>\<open>Please activate your account\<close>, and the store is untouched.
\<close>

theorem validate_gates_process:
  "(well_formed parse reqbody \<longrightarrow>
      (\<exists>rest. fst (snd (post_transaction parse self reqbody rid s)) =
                 Validate (accepted parse reqbody rid) # rest \<and>
               (\<forall>c \<in> set rest. \<forall>p. c \<noteq> Validate p)))
   \<and> (well_formed parse reqbody \<and>
       validate self (accepted parse reqbody rid) s = (Reply status body, sv) \<and> status \<noteq> OK \<longrightarrow>
         post_transaction parse self reqbody rid s =
           (respond status body, [Validate (accepted parse reqbody rid)], sv))
   \<and> (well_formed parse reqbody \<and>
       validate self (accepted parse reqbody rid) s = (Err err, sv) \<longrightarrow>
         post_transaction parse self reqbody rid s =
           (internal_error err, [Validate (accepted parse reqbody rid)], sv))
   \<and> (well_formed parse reqbody \<and> quiet env OpValidate \<and>
       select_accounts (p_requisite reqbody) db = acct # others \<and> a_status acct = Suspended \<longrightarrow>
         post_transaction parse (example_receiver env) reqbody rid db =
           (Send FORBIDDEN (Some (Text ''Please activate your account'')),
            [Validate (accepted parse reqbody rid)], db))"
proof (intro conjI impI)
  assume wf: "well_formed parse reqbody"
  show "\<exists>rest. fst (snd (post_transaction parse self reqbody rid s)) =
                 Validate (accepted parse reqbody rid) # rest \<and>
               (\<forall>c \<in> set rest. \<forall>p. c \<noteq> Validate p)"
    using wf
    by (auto simp: post_transaction_def Let_def accepted_def well_formed_def
          split: prod.splits callback.splits)
next
  assume "well_formed parse reqbody \<and>
       validate self (accepted parse reqbody rid) s = (Reply status body, sv) \<and> status \<noteq> OK"
  then show "post_transaction parse self reqbody rid s =
           (respond status body, [Validate (accepted parse reqbody rid)], sv)"
    by (simp add: post_transaction_def Let_def accepted_def well_formed_def)
next
  assume "well_formed parse reqbody \<and>
       validate self (accepted parse reqbody rid) s = (Err err, sv)"
  then show "post_transaction parse self reqbody rid s =
           (internal_error err, [Validate (accepted parse reqbody rid)], sv)"
    by (simp add: post_transaction_def Let_def accepted_def well_formed_def)
next
  assume a: "well_formed parse reqbody \<and> quiet env OpValidate \<and>
       select_accounts (p_requisite reqbody) db = acct # others \<and> a_status acct = Suspended"
  then have "example_validate env (accepted parse reqbody rid) db =
           (Reply FORBIDDEN (Some (Text ''Please activate your account'')), db)"
    using suspended_forbidden [of env "accepted parse reqbody rid" db acct others] by simp
  with a show "post_transaction parse (example_receiver env) reqbody rid db =
           (Send FORBIDDEN (Some (Text ''Please activate your account'')),
            [Validate (accepted parse reqbody rid)], db)"
    by (simp add: post_transaction_def Let_def accepted_def well_formed_def
          example_receiver_def respond_def truthy_body_def)
qed

theorem validate_gates_process_witness:
  "post_transaction iso (example_receiver (calm 100 1)) (payment ''996555362358'') ''5648dc50'' seed =
     (Send 403 (Some (Text ''Please activate your account'')),
      [Validate (notified ''5648dc50'' ''996555362358'')], seed)
   \<and> post_transaction iso (example_receiver (calm 300 3)) (payment ''996700650835'') ''5648dc50''
       demo_applied =
     (Send 200 (Some (Entity
        \<lparr>tx_id = ''5648dc50'', tx_requisite = ''996700650835'', tx_amount = 4595,
         tx_status = Success, tx_message = None, tx_timestamp = Some 100,
         tx_internal = \<lparr>in_id = 1, in_cancelled = None\<rparr>\<rparr>)),
      [Validate (notified ''5648dc50'' ''996700650835''),
       Process (notified ''5648dc50'' ''996700650835''), Get (Some ''5648dc50'')],
      demo_applied)"
proof -
  have sel: "select_accounts (p_requisite (payment ''996555362358'')) seed =
      \<lparr>a_id = 2, a_requisite = ''996555362358'', a_full_name = ''Andy Romashin'',
          a_status = Suspended, a_balance = 0\<rparr> # []"
    by (simp add: select_accounts_def demo_defs)
  have a: "post_transaction iso (example_receiver (calm 100 1)) (payment ''996555362358'')
      ''5648dc50'' seed =
     (Send FORBIDDEN (Some (Text ''Please activate your account'')),
      [Validate (accepted iso (payment ''996555362358'') ''5648dc50'')], seed)"
    using validate_gates_process [where parse = iso and reqbody = "payment ''996555362358''"
        and env = "calm 100 1" and db = seed and rid = "''5648dc50''" and others = "[]"
        and acct = "\<lparr>a_id = 2, a_requisite = ''996555362358'', a_full_name = ''Andy Romashin'',
          a_status = Suspended, a_balance = 0\<rparr>",
        THEN conjunct2, THEN conjunct2, THEN conjunct2]
      well_formed_payment [of "''996555362358''"] sel
    by simp
  have b: "post_transaction iso (example_receiver (calm 300 3)) (payment ''996700650835'') ''5648dc50''
       demo_applied =
     (Send 200 (Some (Entity
        \<lparr>tx_id = ''5648dc50'', tx_requisite = ''996700650835'', tx_amount = 4595,
         tx_status = Success, tx_message = None, tx_timestamp = Some 100,
         tx_internal = \<lparr>in_id = 1, in_cancelled = None\<rparr>\<rparr>)),
      [Validate (notified ''5648dc50'' ''996700650835''),
       Process (notified ''5648dc50'' ''996700650835''), Get (Some ''5648dc50'')],
      demo_applied)"
    by (simp add: demo_applied_eq request_defs example_defs demo_defs)
  show ?thesis using a b by (simp add: accepted_payment)
qed

section \<open>The transaction engine\<close>



text \<open>
  C6. \<^verbatim>\<open>list\<close> answers with exactly the entries whose completion timestamp \<open>c\<close> has
  \<open>begin \<le> c \<le> end\<close> when an end is given, and \<open>begin \<le> c\<close> when it is not (an end
  that is undefined or empty); an entry without completion timestamp is never among
  them. This holds on every store and for every range.
\<close>

theorem list_returns_range:
  "(quiet env OpList \<and> q_begin rng = Some (Date (Some b)) \<and> q_end rng = Some (Date (Some e)) \<longrightarrow>
      example_list env rng db =
        (Reply OK (Some (Entities (map Transaction
           (filter (\<lambda>t. \<exists>c. t_completed t = Some c \<and> b \<le> c \<and> c \<le> e) (transactions db))))),
         db))
   \<and> (quiet env OpList \<and> q_begin rng = Some (Date (Some b)) \<and>
       (q_end rng = None \<or> q_end rng = Some (Str [])) \<longrightarrow>
      example_list env rng db =
        (Reply OK (Some (Entities (map Transaction
           (filter (\<lambda>t. \<exists>c. t_completed t = Some c \<and> b \<le> c) (transactions db))))),
         db))"
  by (auto simp: example_list_def truthy_time_def select_completed_eq)

theorem list_returns_range_witness:
  "example_list (calm 300 3) \<lparr>q_begin = Some (Date (Some 100)), q_end = Some (Date (Some 100))\<rparr>
      demo_applied =
     (Reply 200 (Some (Entities
        [\<lparr>tx_id = ''5648dc50'', tx_requisite = ''996700650835'', tx_amount = 4595,
          tx_status = Success, tx_message = None, tx_timestamp = Some 100,
          tx_internal = \<lparr>in_id = 1, in_cancelled = None\<rparr>\<rparr>])), demo_applied)
   \<and> example_list (calm 300 3) \<lparr>q_begin = Some (Date (Some 101)), q_end = None\<rparr>
      demo_applied = (Reply 200 (Some (Entities [])), demo_applied)"
  using list_returns_range [of "calm 300 3"
      "\<lparr>q_begin = Some (Date (Some 100)), q_end = Some (Date (Some 100))\<rparr>" 100 100 demo_applied]
    list_returns_range [of "calm 300 3"
      "\<lparr>q_begin = Some (Date (Some 101)), q_end = None\<rparr>" 101 0 demo_applied]
  by (simp add: demo_applied_eq Transaction_def truthy_string_def)





text \<open>
  C1. \<^verbatim>\<open>process\<close> is idempotent by external id. Take parameters that the store accepts
  (an id of at most 24 characters, an amount above 0 that fits \<^verbatim>\<open>numeric(8,2)\<close>, the
  requisite of an account whose balance has room for the amount) and call \<^verbatim>\<open>process\<close>
  with them \<open>N \<ge> 1\<close> times in sequence, no storage failure striking. When the id is
  new, the first call appends one entry and adds the amount to the balance of the owning
  account and of no other; every later call finds the duplicate and changes nothing.
  When the id is already in the ledger, no call changes anything. Either way every one
  of the \<open>N\<close> calls reports \<^verbatim>\<open>STATUS.OK\<close>, and afterwards exactly one entry bears the id.
\<close>

theorem process_idempotent:
  "(\<forall>e \<in> set (env # envs). quiet e OpProcess) \<and> consistent db \<and>
   p_id params = Some i \<and> p_requisite params = Some r \<and> p_amount params = Some v \<and>
   length i \<le> 24 \<and> 0 < v \<and> v < 10 ^ 8 \<and>
   select_accounts (Some r) db = acct # others \<and> a_balance acct + v < 10 ^ 12 \<longrightarrow>
     (i \<notin> t_external_id ` set (transactions db) \<longrightarrow>
        repeat_process (env # envs) params db =
          (replicate (Suc (length envs)) (Reply OK None),
           \<lparr>accounts = map (\<lambda>a. if a = acct then a\<lparr>a_balance := a_balance a + v\<rparr> else a)
                          (accounts db),
            transactions = transactions db @ [new_row env i (a_id acct) r v]\<rparr>)) \<and>
     (i \<in> t_external_id ` set (transactions db) \<longrightarrow>
        repeat_process (env # envs) params db =
          (replicate (Suc (length envs)) (Reply OK None), db)) \<and>
     length (filter (\<lambda>t. t_external_id t = i)
               (transactions (snd (repeat_process (env # envs) params db)))) = 1"
proof
  assume a: "(\<forall>e \<in> set (env # envs). quiet e OpProcess) \<and> consistent db \<and>
   p_id params = Some i \<and> p_requisite params = Some r \<and> p_amount params = Some v \<and>
   length i \<le> 24 \<and> 0 < v \<and> v < 10 ^ 8 \<and>
   select_accounts (Some r) db = acct # others \<and> a_balance acct + v < 10 ^ 12"
  then have q: "quiet env OpProcess" and qs: "\<forall>e \<in> set envs. quiet e OpProcess"
    and c: "consistent db"
    and prm: "p_id params = Some i" "p_requisite params = Some r" "p_amount params = Some v"
    and li: "length i \<le> 24" and v: "0 < v" "v < 10 ^ 8"
    and sel: "select_accounts (Some r) db = acct # others"
    and room: "a_balance acct + v < 10 ^ 12"
    by simp_all
  note mem = select_accounts_mem [OF sel]
  have lr: "length r \<le> 32" using mem c by (auto simp: consistent_def)
  have d: "distinct (map a_id (accounts db))" using c by (simp add: consistent_def)
  have only: "\<And>f. adjust f (a_id acct) (accounts db) =
      map (\<lambda>a. if a = acct then a\<lparr>a_balance := f (a_balance a)\<rparr> else a) (accounts db)"
    using adjust_only [OF d] mem by simp
  have inj: "inj_on a_id (set (accounts db))" using d by (simp add: distinct_map)
  have room': "\<forall>a \<in> set (accounts db). a_id a = a_id acct \<longrightarrow>
                 0 \<le> a_balance a + v \<and> a_balance a + v < 10 ^ 12"
  proof (intro ballI impI)
    fix a assume "a \<in> set (accounts db)" "a_id a = a_id acct"
    then have "a = acct" using inj mem by (auto dest: inj_onD)
    moreover have "0 \<le> a_balance acct" using mem c by (auto simp: consistent_def)
    ultimately show "0 \<le> a_balance a + v \<and> a_balance a + v < 10 ^ 12"
      using room v by simp
  qed
  let ?db' = "\<lparr>accounts = adjust (\<lambda>b. b + v) (a_id acct) (accounts db),
            transactions = transactions db @ [new_row env i (a_id acct) r v]\<rparr>"
  have fresh: "i \<notin> t_external_id ` set (transactions db) \<longrightarrow>
        repeat_process (env # envs) params db =
          (replicate (Suc (length envs)) (Reply OK None), ?db')"
  proof
    assume f: "i \<notin> t_external_id ` set (transactions db)"
    have first: "example_process env params db = (Reply OK None, ?db')"
      by (rule process_fresh [OF q prm sel f li lr v room'])
    have sel': "select_accounts (Some r) ?db' \<noteq> []"
      using select_accounts_adjust [where req = "Some r" and db = db and f = "\<lambda>b. b + v"
          and aid = "a_id acct" and ts = "transactions db @ [new_row env i (a_id acct) r v]"] sel
      by simp
    have dup: "i \<in> t_external_id ` set (transactions ?db')"
      by (simp add: new_row_def)
    have "repeat_process envs params ?db' = (replicate (length envs) (Reply OK None), ?db')"
      by (rule repeat_process_replay [OF qs prm sel' dup li lr v])
    with first show "repeat_process (env # envs) params db =
          (replicate (Suc (length envs)) (Reply OK None), ?db')"
      by simp
  qed
  have len: "length (env # envs) = Suc (length envs)" by simp
  have present: "i \<in> t_external_id ` set (transactions db) \<longrightarrow>
        repeat_process (env # envs) params db =
          (replicate (Suc (length envs)) (Reply OK None), db)"
  proof
    assume dup: "i \<in> t_external_id ` set (transactions db)"
    have sel': "select_accounts (Some r) db \<noteq> []" using sel by simp
    have qa: "\<forall>e \<in> set (env # envs). quiet e OpProcess" using a by (rule conjunct1)
    show "repeat_process (env # envs) params db =
          (replicate (Suc (length envs)) (Reply OK None), db)"
      using repeat_process_replay [OF qa prm sel' dup li lr v] unfolding len .
  qed
  have one: "length (filter (\<lambda>t. t_external_id t = i)
               (transactions (snd (repeat_process (env # envs) params db)))) = 1"
  proof (cases "i \<in> t_external_id ` set (transactions db)")
    case True
    have "distinct (map t_external_id (transactions db))" using c by (simp add: consistent_def)
    then have "length (filter (\<lambda>t. t_external_id t = i) (transactions db)) = 1"
      using True by (rule count_unique)
    moreover have "snd (repeat_process (env # envs) params db) = db"
      using present [rule_format, OF True] by (simp only: snd_conv)
    ultimately show ?thesis by (simp only:)
  next
    case False
    then have "\<forall>z \<in> set (transactions db). t_external_id z \<noteq> i"
      by (metis imageI)
    then have e: "filter (\<lambda>t. t_external_id t = i) (transactions db) = []"
      by (simp add: filter_empty_conv)
    have "snd (repeat_process (env # envs) params db) = ?db'"
      using fresh [rule_format, OF False] by (simp only: snd_conv)
    then show ?thesis using e by (simp add: new_row_def)
  qed
  have fresh': "i \<notin> t_external_id ` set (transactions db) \<longrightarrow>
        repeat_process (env # envs) params db =
          (replicate (Suc (length envs)) (Reply OK None),
           \<lparr>accounts = map (\<lambda>a. if a = acct then a\<lparr>a_balance := a_balance a + v\<rparr> else a)
                          (accounts db),
            transactions = transactions db @ [new_row env i (a_id acct) r v]\<rparr>)"
    using fresh unfolding only .
  show "(i \<notin> t_external_id ` set (transactions db) \<longrightarrow>
        repeat_process (env # envs) params db =
          (replicate (Suc (length envs)) (Reply OK None),
           \<lparr>accounts = map (\<lambda>a. if a = acct then a\<lparr>a_balance := a_balance a + v\<rparr> else a)
                          (accounts db),
            transactions = transactions db @ [new_row env i (a_id acct) r v]\<rparr>)) \<and>
     (i \<in> t_external_id ` set (transactions db) \<longrightarrow>
        repeat_process (env # envs) params db =
          (replicate (Suc (length envs)) (Reply OK None), db)) \<and>
     length (filter (\<lambda>t. t_external_id t = i)
               (transactions (snd (repeat_process (env # envs) params db)))) = 1"
    by (rule conjI [OF fresh' conjI [OF present one]])
qed

theorem process_idempotent_witness:
  "repeat_process [calm 100 1, calm 150 5, calm 160 6] (notified ''5648dc50'' ''996700650835'') seed =
     ([Reply 200 None, Reply 200 None, Reply 200 None], demo_applied)
   \<and> map a_balance (accounts seed) = [0, 0]
   \<and> map a_balance (accounts demo_applied) = [4595, 0]
   \<and> length (filter (\<lambda>t. t_external_id t = ''5648dc50'') (transactions demo_applied)) = 1
   \<and> repeat_process [calm 150 5, calm 160 6] (notified ''5648dc50'' ''996700650835'') demo_applied =
     ([Reply 200 None, Reply 200 None], demo_applied)"
proof -
  let ?p = "notified ''5648dc50'' ''996700650835''"
  let ?acct = "\<lparr>a_id = 1, a_requisite = ''996700650835'', a_full_name = ''Dan Kerimdzhanov'',
          a_status = Active, a_balance = 0\<rparr>"
  let ?other = "\<lparr>a_id = 2, a_requisite = ''996555362358'', a_full_name = ''Andy Romashin'',
          a_status = Suspended, a_balance = 0\<rparr>"
  have sel: "select_accounts (Some ''996700650835'') seed = ?acct # []"
    by (simp add: select_accounts_def seed_def)
  have sel2: "select_accounts (Some ''996700650835'') demo_applied =
      ?acct\<lparr>a_balance := 4595\<rparr> # []"
    by (simp add: select_accounts_def demo_applied_eq)
  have fresh: "''5648dc50'' \<notin> t_external_id ` set (transactions seed)"
    by (simp add: seed_def)
  have there: "''5648dc50'' \<in> t_external_id ` set (transactions demo_applied)"
    by (simp add: demo_applied_eq)
  have hyp: "(\<forall>e \<in> set (calm 100 1 # [calm 150 5, calm 160 6]). quiet e OpProcess) \<and>
      consistent seed \<and> p_id ?p = Some ''5648dc50'' \<and> p_requisite ?p = Some ''996700650835'' \<and>
      p_amount ?p = Some 4595 \<and> length ''5648dc50'' \<le> 24 \<and> (0::int) < 4595 \<and>
      (4595::int) < 10 ^ 8 \<and> select_accounts (Some ''996700650835'') seed = ?acct # [] \<and>
      a_balance ?acct + 4595 < 10 ^ 12"
    using seed_sound sel by (simp add: notified_def)
  have hyp2: "(\<forall>e \<in> set (calm 150 5 # [calm 160 6]). quiet e OpProcess) \<and>
      consistent demo_applied \<and> p_id ?p = Some ''5648dc50'' \<and>
      p_requisite ?p = Some ''996700650835'' \<and>
      p_amount ?p = Some 4595 \<and> length ''5648dc50'' \<le> 24 \<and> (0::int) < 4595 \<and>
      (4595::int) < 10 ^ 8 \<and>
      select_accounts (Some ''996700650835'') demo_applied = ?acct\<lparr>a_balance := 4595\<rparr> # [] \<and>
      a_balance (?acct\<lparr>a_balance := 4595\<rparr>) + 4595 < 10 ^ 12"
    using demo_applied_sound sel2 by (simp add: notified_def)
  from process_idempotent [where env = "calm 100 1" and envs = "[calm 150 5, calm 160 6]"
      and db = seed and params = ?p and i = "''5648dc50''" and r = "''996700650835''"
      and v = 4595 and acct = ?acct and others = "[]", THEN mp, OF hyp]
  have a: "repeat_process [calm 100 1, calm 150 5, calm 160 6] ?p seed =
      (replicate (Suc (length [calm 150 5, calm 160 6])) (Reply OK None),
       \<lparr>accounts = map (\<lambda>a. if a = ?acct then a\<lparr>a_balance := a_balance a + 4595\<rparr> else a)
                          (accounts seed),
        transactions = transactions seed @ [new_row (calm 100 1) ''5648dc50'' (a_id ?acct)
           ''996700650835'' 4595]\<rparr>)"
    and n: "length (filter (\<lambda>t. t_external_id t = ''5648dc50'')
               (transactions (snd (repeat_process [calm 100 1, calm 150 5, calm 160 6] ?p seed)))) = 1"
    using fresh by blast+
  from process_idempotent [where env = "calm 150 5" and envs = "[calm 160 6]"
      and db = demo_applied and params = ?p and i = "''5648dc50''" and r = "''996700650835''"
      and v = 4595 and acct = "?acct\<lparr>a_balance := 4595\<rparr>" and others = "[]", THEN mp, OF hyp2]
  have b: "repeat_process [calm 150 5, calm 160 6] ?p demo_applied =
      (replicate (Suc (length [calm 160 6])) (Reply OK None), demo_applied)"
    using there by blast
  have eq: "\<lparr>accounts = map (\<lambda>a. if a = ?acct then a\<lparr>a_balance := a_balance a + 4595\<rparr> else a)
                          (accounts seed),
        transactions = transactions seed @ [new_row (calm 100 1) ''5648dc50'' (a_id ?acct)
           ''996700650835'' 4595]\<rparr> = demo_applied"
    by (simp add: demo_applied_eq seed_def new_row_def)
  show ?thesis
    using a n b unfolding eq by (simp add: demo_applied_eq seed_def)
qed


text \<open>
  C2. \<^verbatim>\<open>cancel\<close>, called \<open>N \<ge> 1\<close> times in sequence on a store that \<^verbatim>\<open>process\<close> and
  \<^verbatim>\<open>cancel\<close> have built, no storage failure striking. For an entry that is there and not
  yet cancelled, the first call takes the amount of the entry from the balance of the
  owning account and of no other and sets the status of that entry and of no other to
  cancelled; every later call changes nothing; every call reports \<^verbatim>\<open>STATUS.OK\<close>. For an
  entry that is already cancelled, every call reports \<^verbatim>\<open>STATUS.OK\<close> and nothing changes.
  For an id without entry, every call reports \<^verbatim>\<open>STATUS.NOT_FOUND\<close> and nothing changes.
\<close>

theorem cancel_idempotent:
  "(\<forall>e \<in> set (env # envs). quiet e OpCancel) \<and> consistent db \<and> backed db \<longrightarrow>
     (select_transactions id' db = t # others \<and> t_status t \<noteq> Cancelled \<and>
      owner \<in> set (accounts db) \<and> a_id owner = t_account_id t \<longrightarrow>
        repeat_cancel (env # envs) id' db =
          (replicate (Suc (length envs)) (Reply OK None),
           \<lparr>accounts = map (\<lambda>a. if a = owner then a\<lparr>a_balance := a_balance a - t_amount t\<rparr> else a)
                          (accounts db),
            transactions = map (\<lambda>x. if x = t then x\<lparr>t_status := Cancelled\<rparr> else x)
                             (transactions db)\<rparr>)) \<and>
     (select_transactions id' db = t # others \<and> t_status t = Cancelled \<longrightarrow>
        repeat_cancel (env # envs) id' db = (replicate (Suc (length envs)) (Reply OK None), db)) \<and>
     (select_transactions id' db = [] \<longrightarrow>
        repeat_cancel (env # envs) id' db =
          (replicate (Suc (length envs)) (Reply NOT_FOUND None), db))"
proof
  assume a: "(\<forall>e \<in> set (env # envs). quiet e OpCancel) \<and> consistent db \<and> backed db"
  then have qa: "\<forall>e \<in> set (env # envs). quiet e OpCancel"
    and q: "quiet env OpCancel" and qs: "\<forall>e \<in> set envs. quiet e OpCancel"
    and c: "consistent db" and b: "backed db"
    by simp_all
  have len: "length (env # envs) = Suc (length envs)" by simp
  have h1: "select_transactions id' db = t # others \<and> t_status t \<noteq> Cancelled \<and>
      owner \<in> set (accounts db) \<and> a_id owner = t_account_id t \<longrightarrow>
        repeat_cancel (env # envs) id' db =
          (replicate (Suc (length envs)) (Reply OK None),
           \<lparr>accounts = map (\<lambda>a. if a = owner then a\<lparr>a_balance := a_balance a - t_amount t\<rparr> else a)
                          (accounts db),
            transactions = map (\<lambda>x. if x = t then x\<lparr>t_status := Cancelled\<rparr> else x)
                             (transactions db)\<rparr>)"
  proof
    assume h: "select_transactions id' db = t # others \<and> t_status t \<noteq> Cancelled \<and>
      owner \<in> set (accounts db) \<and> a_id owner = t_account_id t"
    then have sel: "select_transactions id' db = t # others" and st: "t_status t \<noteq> Cancelled"
      and ow: "owner \<in> set (accounts db)" "a_id owner = t_account_id t"
      by simp_all
    note mem = select_transactions_mem [OF sel]
    let ?db' = "\<lparr>accounts = adjust (\<lambda>b. b - t_amount t) (t_account_id t) (accounts db),
             transactions = mark_cancelled id' (transactions db)\<rparr>"
    have first: "example_cancel env id' db = (Reply OK None, ?db')"
      by (rule cancel_first [OF q sel st c b])
    have "select_transactions id' ?db' =
        map (\<lambda>t. t\<lparr>t_status := Cancelled\<rparr>) (select_transactions id' db)"
      by (simp add: select_transactions_def filter_mark)
    then have sel': "select_transactions id' ?db' =
        t\<lparr>t_status := Cancelled\<rparr> # map (\<lambda>t. t\<lparr>t_status := Cancelled\<rparr>) others"
      by (simp add: sel)
    have "repeat_cancel envs id' ?db' = (replicate (length envs) (Reply OK None), ?db')"
      by (rule repeat_cancel_again [OF qs sel']) simp
    with first have r: "repeat_cancel (env # envs) id' db =
        (replicate (Suc (length envs)) (Reply OK None), ?db')"
      by simp
    have da: "distinct (map a_id (accounts db))" and dt: "distinct (map t_external_id (transactions db))"
      using c by (simp_all add: consistent_def)
    have e1: "adjust (\<lambda>b. b - t_amount t) (t_account_id t) (accounts db) =
        map (\<lambda>a. if a = owner then a\<lparr>a_balance := a_balance a - t_amount t\<rparr> else a) (accounts db)"
      using adjust_only [OF da ow(1), of "\<lambda>b. b - t_amount t"] ow(2) by simp
    have e2: "mark_cancelled id' (transactions db) =
        map (\<lambda>x. if x = t then x\<lparr>t_status := Cancelled\<rparr> else x) (transactions db)"
      using mark_only [OF dt, of t] mem by simp
    show "repeat_cancel (env # envs) id' db =
          (replicate (Suc (length envs)) (Reply OK None),
           \<lparr>accounts = map (\<lambda>a. if a = owner then a\<lparr>a_balance := a_balance a - t_amount t\<rparr> else a)
                          (accounts db),
            transactions = map (\<lambda>x. if x = t then x\<lparr>t_status := Cancelled\<rparr> else x)
                             (transactions db)\<rparr>)"
      using r unfolding e1 e2 .
  qed
  have h2: "select_transactions id' db = t # others \<and> t_status t = Cancelled \<longrightarrow>
        repeat_cancel (env # envs) id' db = (replicate (Suc (length envs)) (Reply OK None), db)"
  proof
    assume "select_transactions id' db = t # others \<and> t_status t = Cancelled"
    then have s: "select_transactions id' db = t # others" and k: "t_status t = Cancelled"
      by simp_all
    have "repeat_cancel (env # envs) id' db =
        (replicate (length (env # envs)) (Reply OK None), db)"
      by (rule repeat_cancel_again [OF qa s k])
    then show "repeat_cancel (env # envs) id' db =
        (replicate (Suc (length envs)) (Reply OK None), db)"
      unfolding len .
  qed
  have h3: "select_transactions id' db = [] \<longrightarrow>
        repeat_cancel (env # envs) id' db =
          (replicate (Suc (length envs)) (Reply NOT_FOUND None), db)"
  proof
    assume "select_transactions id' db = []"
    then have "repeat_cancel (env # envs) id' db =
        (replicate (length (env # envs)) (Reply NOT_FOUND None), db)"
      by (rule repeat_cancel_missing [OF qa])
    then show "repeat_cancel (env # envs) id' db =
          (replicate (Suc (length envs)) (Reply NOT_FOUND None), db)"
      unfolding len .
  qed
  show "(select_transactions id' db = t # others \<and> t_status t \<noteq> Cancelled \<and>
      owner \<in> set (accounts db) \<and> a_id owner = t_account_id t \<longrightarrow>
        repeat_cancel (env # envs) id' db =
          (replicate (Suc (length envs)) (Reply OK None),
           \<lparr>accounts = map (\<lambda>a. if a = owner then a\<lparr>a_balance := a_balance a - t_amount t\<rparr> else a)
                          (accounts db),
            transactions = map (\<lambda>x. if x = t then x\<lparr>t_status := Cancelled\<rparr> else x)
                             (transactions db)\<rparr>)) \<and>
     (select_transactions id' db = t # others \<and> t_status t = Cancelled \<longrightarrow>
        repeat_cancel (env # envs) id' db = (replicate (Suc (length envs)) (Reply OK None), db)) \<and>
     (select_transactions id' db = [] \<longrightarrow>
        repeat_cancel (env # envs) id' db =
          (replicate (Suc (length envs)) (Reply NOT_FOUND None), db))"
    by (rule conjI [OF h1 conjI [OF h2 h3]])
qed

theorem cancel_idempotent_witness:
  "repeat_cancel [calm 200 2, calm 210 7] (Some ''5648dc50'') demo_applied =
     ([Reply 200 None, Reply 200 None], demo_cancelled)
   \<and> map a_balance (accounts demo_applied) = [4595, 0]
   \<and> map a_balance (accounts demo_cancelled) = [0, 0]
   \<and> map t_status (transactions demo_cancelled) = [Cancelled]
   \<and> repeat_cancel [calm 220 8] (Some ''5648dc50'') demo_cancelled =
     ([Reply 200 None], demo_cancelled)
   \<and> repeat_cancel [calm 200 2, calm 210 7] (Some ''unknown'') demo_applied =
     ([Reply 404 None, Reply 404 None], demo_applied)"
proof -
  let ?t = "\<lparr>t_id = 1, t_external_id = ''5648dc50'', t_account_id = 1,
          t_requisite = ''996700650835'', t_amount = 4595, t_status = Success,
          t_message = None, t_initialized = 100, t_completed = Some 100,
          t_cancelled = None\<rparr>"
  let ?owner = "\<lparr>a_id = 1, a_requisite = ''996700650835'', a_full_name = ''Dan Kerimdzhanov'',
          a_status = Active, a_balance = 4595\<rparr>"
  have sel: "select_transactions (Some ''5648dc50'') demo_applied = ?t # []"
    by (simp add: select_transactions_def demo_applied_eq)
  have sel2: "select_transactions (Some ''5648dc50'') demo_cancelled =
      ?t\<lparr>t_status := Cancelled\<rparr> # []"
    by (simp add: select_transactions_def demo_cancelled_eq)
  have sel3: "select_transactions (Some ''unknown'') demo_applied = []"
    by (simp add: select_transactions_def demo_applied_eq)
  have ow: "?owner \<in> set (accounts demo_applied)" "a_id ?owner = t_account_id ?t"
    by (simp_all add: demo_applied_eq)
  have cancelled_sound: "consistent demo_cancelled \<and> backed demo_cancelled"
    using perform_all_sound [of demo_applied "[Reverse (calm 200 2) (Some ''5648dc50'')]"]
      demo_applied_sound
    by (simp add: perform_all_def demo_cancelled_def)
  have hyp: "(\<forall>e \<in> set (calm 200 2 # [calm 210 7]). quiet e OpCancel) \<and>
      consistent demo_applied \<and> backed demo_applied"
    using demo_applied_sound by simp
  have hyp2: "(\<forall>e \<in> set (calm 220 8 # []). quiet e OpCancel) \<and>
      consistent demo_cancelled \<and> backed demo_cancelled"
    using cancelled_sound by simp
  from cancel_idempotent [where env = "calm 200 2" and envs = "[calm 210 7]"
      and db = demo_applied and id' = "Some ''5648dc50''" and t = ?t and others = "[]"
      and owner = ?owner, THEN mp, OF hyp, THEN conjunct1] sel ow
  have a: "repeat_cancel [calm 200 2, calm 210 7] (Some ''5648dc50'') demo_applied =
      (replicate (Suc (length [calm 210 7])) (Reply OK None),
       \<lparr>accounts = map (\<lambda>a. if a = ?owner then a\<lparr>a_balance := a_balance a - t_amount ?t\<rparr> else a)
                          (accounts demo_applied),
        transactions = map (\<lambda>x. if x = ?t then x\<lparr>t_status := Cancelled\<rparr> else x)
                             (transactions demo_applied)\<rparr>)"
    by simp
  from cancel_idempotent [where env = "calm 220 8" and envs = "[]"
      and db = demo_cancelled and id' = "Some ''5648dc50''" and t = "?t\<lparr>t_status := Cancelled\<rparr>"
      and others = "[]", THEN mp, OF hyp2, THEN conjunct2, THEN conjunct1] sel2
  have b: "repeat_cancel [calm 220 8] (Some ''5648dc50'') demo_cancelled =
      (replicate (Suc (length ([] :: env list))) (Reply OK None), demo_cancelled)"
    by simp
  from cancel_idempotent [where env = "calm 200 2" and envs = "[calm 210 7]"
      and db = demo_applied and id' = "Some ''unknown''",
      THEN mp, OF hyp, THEN conjunct2, THEN conjunct2] sel3
  have c: "repeat_cancel [calm 200 2, calm 210 7] (Some ''unknown'') demo_applied =
      (replicate (Suc (length [calm 210 7])) (Reply NOT_FOUND None), demo_applied)"
    by simp
  have eq: "\<lparr>accounts = map (\<lambda>a. if a = ?owner then a\<lparr>a_balance := a_balance a - t_amount ?t\<rparr> else a)
                          (accounts demo_applied),
        transactions = map (\<lambda>x. if x = ?t then x\<lparr>t_status := Cancelled\<rparr> else x)
                             (transactions demo_applied)\<rparr> = demo_cancelled"
    by (simp add: demo_applied_eq demo_cancelled_eq)
  show ?thesis
    using a b c unfolding eq by (simp add: demo_applied_eq demo_cancelled_eq)
qed

text \<open>
  C8. No account is ever below zero: from a store in which every balance is at least 0,
  after every prefix of every sequence of \<^verbatim>\<open>process\<close> and \<^verbatim>\<open>cancel\<close> calls, with whatever
  parameters and whatever storage failures, every balance is at least 0.
\<close>

theorem balance_never_negative:
  "solvent db \<longrightarrow> (\<forall>n. \<forall>a \<in> set (accounts (perform_all (take n cs) db)). 0 \<le> a_balance a)"
  using perform_all_solvent [of db] by (auto simp: solvent_def)

theorem balance_never_negative_witness:
  "map a_balance (accounts seed) = [0, 0]
   \<and> map a_balance (accounts (perform_all
        [Apply (calm 100 1) (notified ''5648dc50'' ''996700650835'')] seed)) = [4595, 0]
   \<and> map a_balance (accounts (perform_all
        [Apply (calm 100 1) (notified ''5648dc50'' ''996700650835''),
         Reverse (calm 200 2) (Some ''5648dc50''),
         Reverse (calm 210 7) (Some ''5648dc50'')] seed)) = [0, 0]
   \<and> map a_balance (accounts demo_drained) = [0, 0]
   \<and> example_cancel (calm 200 2) (Some ''5648dc50'') demo_drained =
       (Err (check_violation ''accounts_balance_check''), demo_drained)"
proof -
  let ?cs = "[Apply (calm 100 1) (notified ''5648dc50'' ''996700650835''),
         Reverse (calm 200 2) (Some ''5648dc50''),
         Reverse (calm 210 7) (Some ''5648dc50'')]"
  have s: "solvent seed" by (simp add: solvent_def seed_def)
  have r3: "snd (example_cancel (calm 210 7) (Some ''5648dc50'') demo_cancelled) = demo_cancelled"
    by (simp add: demo_cancelled_eq example_defs)
  have one: "perform_all [Apply (calm 100 1) (notified ''5648dc50'' ''996700650835'')] seed =
      demo_applied"
    unfolding perform_all_def
    by (simp only: fold_simps perform.simps demo_applied_def [symmetric])
  have three: "perform_all ?cs seed = demo_cancelled"
    unfolding perform_all_def
    by (simp only: fold_simps perform.simps demo_applied_def [symmetric]
          demo_cancelled_def [symmetric] r3)
  have d: "example_cancel (calm 200 2) (Some ''5648dc50'') demo_drained =
       (Err (check_violation ''accounts_balance_check''), demo_drained)"
    by (simp add: demo_drained_def demo_applied_eq seed_def example_defs)
  from balance_never_negative [of seed ?cs] s
  have "\<forall>a \<in> set (accounts (perform_all (take 3 ?cs) seed)). 0 \<le> a_balance a"
    by blast
  then show ?thesis
    unfolding one three
    using d by (simp add: demo_applied_eq demo_cancelled_eq demo_drained_def seed_def)
qed

end
